theory Spec2Isabelle
  imports Main
begin

section \<open>Email autoconfiguration lookup (autoconfig.py)\<close>

text \<open>
  A shallow embedding of \<^verbatim>\<open>autoconfig.py\<close>: the classes \<^verbatim>\<open>ServerConfig\<close> and
  \<^verbatim>\<open>ClientConfig\<close>. A Python \<^verbatim>\<open>str\<close> is the list of its code points, of type \<open>str\<close>.
  An exception is a value of type \<open>error\<close>, and a function that may raise returns
  \<open>error + 'a\<close> with \<open>Inl\<close> for the exception.
\<close>

subsection \<open>Exceptions\<close>

datatype error =
    ValueError            \<comment> \<open>raised by \<^verbatim>\<open>urlsplit\<close> and by \<^verbatim>\<open>int\<close>\<close>
  | AttributeError        \<comment> \<open>a missing child element, or an attribute read on a list\<close>
  | TypeError             \<comment> \<open>a list indexed by a string\<close>
  | NoConfigurationFound  \<comment> \<open>\<^verbatim>\<open>Exception(f"No configuration file found for '{domain}'")\<close>\<close>
  | RequestsError string  \<comment> \<open>an exception raised inside \<^verbatim>\<open>requests.get\<close>\<close>
  | UntangleError string  \<comment> \<open>an exception raised inside \<^verbatim>\<open>untangle.parse\<close>\<close>

text \<open>Sequencing: an exception raised by the first step ends the computation.\<close>

definition and_then :: "error + 'a \<Rightarrow> ('a \<Rightarrow> error + 'b) \<Rightarrow> error + 'b" where
  "and_then m f = (case m of Inl e \<Rightarrow> Inl e | Inr x \<Rightarrow> f x)"

subsection \<open>Strings\<close>

text \<open>
  A string is the list of its code points, any natural number being a code point here
  (Python stops at U+10FFFF). \<open>py\<close> reads a literal, \<open>ord\<close> a character of a literal.
\<close>

type_synonym str = "nat list"

abbreviation ord :: "char \<Rightarrow> nat" where
  "ord c \<equiv> of_char c"

definition py :: "string \<Rightarrow> str" where
  "py cs = map ord cs"

definition startswith :: "str \<Rightarrow> str \<Rightarrow> bool" where
  "startswith s p = (take (length p) s = p)"

subsection \<open>The libraries the module calls\<close>

text \<open>
  An element of the tree that \<^verbatim>\<open>untangle.parse\<close> builds: its name, its XML attributes,
  its child elements in document order, and its character data.
\<close>

datatype element =
  Element (name: str) (attributes: "(str \<times> str) list")
          (children: "element list") (cdata: str)

text \<open>
  The parts of the libraries that are not written out here are parameters of the model:
  \<^item> \<open>check_bracketed_netloc\<close>: whether \<^verbatim>\<open>urllib.parse._check_bracketed_netloc\<close> accepts
    a network location that contains both brackets (an IPv6 or IPvFuture literal);
  \<^item> \<open>nfkc_netloc_ok\<close>: whether the NFKC test of \<^verbatim>\<open>urllib.parse._checknetloc\<close> accepts
    a network location with a non-ASCII character;
  \<^item> \<open>untangle_parse\<close>: \<^verbatim>\<open>untangle.parse\<close> on a text, the root element of the parsed
    document or the name of the exception the parser raises;
  \<^item> \<open>py_int\<close>: the builtin \<^verbatim>\<open>int\<close> on a string, \<open>None\<close> where it raises ValueError;
  \<^item> \<open>unicode_lower\<close>: for a string and the index of a code point above 255 in it,
    the code points that \<^verbatim>\<open>str.lower\<close> puts in its place (the full lower-case mapping
    of the Unicode tables, and the final-sigma rule for U+03A3);
  \<^item> \<open>unicode_isupper\<close>: whether a code point above 255 is an upper-case letter.
\<close>

record library =
  check_bracketed_netloc :: "str \<Rightarrow> bool"
  nfkc_netloc_ok :: "str \<Rightarrow> bool"
  untangle_parse :: "str \<Rightarrow> string + element"
  py_int :: "str \<Rightarrow> int option"
  unicode_lower :: "str \<Rightarrow> nat \<Rightarrow> str"
  unicode_isupper :: "nat \<Rightarrow> bool"

subsection \<open>\<^verbatim>\<open>str.lower\<close>\<close>

text \<open>
  Among the code points 0..255 the upper-case letters are A..Z and U+00C0..U+00DE
  without the multiplication sign U+00D7; \<^verbatim>\<open>str.lower\<close> maps each to the code point 32
  above it and leaves the other code points of that range unchanged.
\<close>

definition isupper_latin1 :: "nat \<Rightarrow> bool" where
  "isupper_latin1 n = ((65 \<le> n \<and> n \<le> 90) \<or> (192 \<le> n \<and> n \<le> 222 \<and> n \<noteq> 215))"

definition lower_latin1 :: "nat \<Rightarrow> nat" where
  "lower_latin1 n = (if isupper_latin1 n then n + 32 else n)"

definition isupper_char :: "library \<Rightarrow> nat \<Rightarrow> bool" where
  "isupper_char L c = (if c < 256 then isupper_latin1 c else unicode_isupper L c)"

text \<open>
  \<^verbatim>\<open>str.lower\<close> replaces the code points one position after the other: \<open>lower_from\<close>
  is the loop over the positions, with the whole string, the index of the next position
  and the code points from there on.
\<close>

fun lower_from :: "library \<Rightarrow> str \<Rightarrow> nat \<Rightarrow> str \<Rightarrow> str" where
  "lower_from L s i [] = []"
| "lower_from L s i (c # cs) =
     (if c < 256 then [lower_latin1 c] else unicode_lower L s i) @ lower_from L s (Suc i) cs"

definition lower :: "library \<Rightarrow> str \<Rightarrow> str" where
  "lower L s = lower_from L s 0 s"

subsection \<open>\<^verbatim>\<open>urllib.parse.urlsplit(url).netloc\<close>\<close>

definition WHATWG_C0_CONTROL_OR_SPACE :: "nat \<Rightarrow> bool" where
  "WHATWG_C0_CONTROL_OR_SPACE c = (c \<le> 32)"

definition UNSAFE_URL_BYTES_TO_REMOVE :: "nat list" where
  "UNSAFE_URL_BYTES_TO_REMOVE = [0x09, 0x0D, 0x0A]"

definition scheme_chars :: "nat list" where
  "scheme_chars =
     py ''abcdefghijklmnopqrstuvwxyz'' @ py ''ABCDEFGHIJKLMNOPQRSTUVWXYZ'' @ py ''0123456789''
       @ py ''+-.''"

definition isascii_alpha :: "nat \<Rightarrow> bool" where
  "isascii_alpha c =
     (c \<in> set (py ''abcdefghijklmnopqrstuvwxyz'' @ py ''ABCDEFGHIJKLMNOPQRSTUVWXYZ''))"

definition isascii_str :: "str \<Rightarrow> bool" where
  "isascii_str s = (\<forall>c \<in> set s. c < 128)"

text \<open>
  The scheme is cut off at the first colon when that colon is not the first character,
  the URL starts with an ASCII letter and everything before the colon is a scheme
  character; the result is the rest of the URL after the colon.
\<close>

definition strip_scheme :: "str \<Rightarrow> str" where
  "strip_scheme url =
     (let pre = takeWhile (\<lambda>c. c \<noteq> ord CHR '':'') url;
          i = length pre
      in if i < length url \<and> 0 < i \<and> isascii_alpha (hd url)
            \<and> (\<forall>c \<in> set pre. c \<in> set scheme_chars)
         then drop (i + 1) url else url)"

text \<open>\<^verbatim>\<open>_splitnetloc(url, 2)[0]\<close>: from index 2 up to the first of \<^verbatim>\<open>/ ? #\<close>.\<close>

definition splitnetloc :: "str \<Rightarrow> str" where
  "splitnetloc url = takeWhile (\<lambda>c. c \<notin> set (py ''/?#'')) (drop 2 url)"

definition checknetloc :: "library \<Rightarrow> str \<Rightarrow> bool" where
  "checknetloc L netloc = (netloc = [] \<or> isascii_str netloc \<or> nfkc_netloc_ok L netloc)"

text \<open>
  The checks \<^verbatim>\<open>urlsplit\<close> runs on the network location, each raising ValueError:
  unbalanced brackets, \<^verbatim>\<open>_check_bracketed_netloc\<close> when both brackets occur, and
  \<^verbatim>\<open>_checknetloc\<close>.
\<close>

definition validate_netloc :: "library \<Rightarrow> str \<Rightarrow> error + str" where
  "validate_netloc L netloc =
     (let lb = ord CHR ''['' \<in> set netloc;
          rb = ord CHR '']'' \<in> set netloc
      in if (lb \<and> \<not> rb) \<or> (rb \<and> \<not> lb) then Inl ValueError
         else if lb \<and> rb \<and> \<not> check_bracketed_netloc L netloc then Inl ValueError
         else if \<not> checknetloc L netloc then Inl ValueError
         else Inr netloc)"

text \<open>
  The \<^verbatim>\<open>netloc\<close> field of \<^verbatim>\<open>urlsplit(url)\<close>, after CPython 3.12: leading C0 control
  characters and spaces are stripped, tab, carriage return and line feed are removed
  everywhere, the scheme is cut off, and the network location is what follows \<^verbatim>\<open>//\<close>
  up to the first delimiter, or the empty string when the rest does not begin with
  \<^verbatim>\<open>//\<close>. The source runs the bracket checks only in the first case; the empty string
  passes them.
\<close>

definition urlsplit_netloc :: "library \<Rightarrow> str \<Rightarrow> error + str" where
  "urlsplit_netloc L url0 =
     (let url1 = dropWhile WHATWG_C0_CONTROL_OR_SPACE url0;
          url2 = filter (\<lambda>c. c \<notin> set UNSAFE_URL_BYTES_TO_REMOVE) url1;
          url3 = strip_scheme url2
      in validate_netloc L (if take 2 url3 = py ''//'' then splitnetloc url3 else []))"

subsection \<open>\<^verbatim>\<open>ClientConfig.fix_url\<close>\<close>

definition fix_url :: "library \<Rightarrow> str \<Rightarrow> error + str" where
  "fix_url L domain =
     (let domain' = (if \<not> (startswith domain (py ''http://'') \<or> startswith domain (py ''https://''))
                     then py ''http://'' @ domain else domain)
      in urlsplit_netloc L domain')"

subsection \<open>\<^verbatim>\<open>untangle.Element\<close>\<close>

text \<open>
  What \<^verbatim>\<open>element.key\<close> evaluates to: the matching child when exactly one child has
  that name, the list of the matching children when several have.
\<close>

datatype node = Elem element | ElemList "element list"

text \<open>
  \<^verbatim>\<open>Element.__getattr__\<close>, for a key that is not an attribute of the \<^verbatim>\<open>Element\<close>
  class itself (none of the keys the module reads is one).
\<close>

definition getattr_element :: "element \<Rightarrow> str \<Rightarrow> error + node" where
  "getattr_element e key =
     (let matching_children = filter (\<lambda>x. name x = key) (children e)
      in if matching_children \<noteq> [] then
           (if length matching_children = 1 then Inr (Elem (hd matching_children))
            else Inr (ElemList matching_children))
         else Inl AttributeError)"

text \<open>\<^verbatim>\<open>value.key\<close>: a Python list has none of the attributes the module reads.\<close>

definition getattr_node :: "node \<Rightarrow> str \<Rightarrow> error + node" where
  "getattr_node v key = (case v of Elem e \<Rightarrow> getattr_element e key | ElemList es \<Rightarrow> Inl AttributeError)"

text \<open>\<^verbatim>\<open>Element.__getitem__\<close> is \<^verbatim>\<open>self._attributes.get(key)\<close>; a list indexed by a string raises.\<close>

definition getitem_element :: "element \<Rightarrow> str \<Rightarrow> str option" where
  "getitem_element e key = map_of (attributes e) key"

definition getitem_node :: "node \<Rightarrow> str \<Rightarrow> error + str option" where
  "getitem_node v key = (case v of Elem e \<Rightarrow> Inr (getitem_element e key) | ElemList es \<Rightarrow> Inl TypeError)"

definition cdata_node :: "node \<Rightarrow> error + str" where
  "cdata_node v = (case v of Elem e \<Rightarrow> Inr (cdata e) | ElemList es \<Rightarrow> Inl AttributeError)"

text \<open>\<^verbatim>\<open>for attr in value\<close>: \<^verbatim>\<open>Element.__iter__\<close> yields the element itself.\<close>

definition iter_node :: "node \<Rightarrow> element list" where
  "iter_node v = (case v of Elem e \<Rightarrow> [e] | ElemList es \<Rightarrow> es)"

subsection \<open>\<^verbatim>\<open>ServerConfig\<close> and \<^verbatim>\<open>ClientConfig\<close>\<close>

text \<open>The \<open>protocol\<close> is \<open>None\<close> when the server element has no \<^verbatim>\<open>type\<close> attribute.\<close>

record ServerConfig =
  protocol :: "str option"
  hostname :: str
  port :: int
  socket_type :: str
  authentication :: str
  username :: str

record ClientConfig =
  domain :: str
  xml :: str
  emailProvider :: "str option"
  configs :: "ServerConfig list"

text \<open>\<^verbatim>\<open>VERSION = 1.1\<close>, as the f-string of \<^verbatim>\<open>DATABASE_URL\<close> formats it.\<close>

definition VERSION :: str where
  "VERSION = py ''1.1''"

definition DATABASE_URL :: str where
  "DATABASE_URL = py ''https://autoconfig.thunderbird.net/v'' @ VERSION"

subsection \<open>\<^verbatim>\<open>ClientConfig.request_config\<close>\<close>

text \<open>
  A response of \<^verbatim>\<open>requests\<close>: \<^verbatim>\<open>Response.ok\<close> is false exactly for a status code
  from 400 to 599.
\<close>

record response =
  status_code :: nat
  response_text :: str

definition ok :: "response \<Rightarrow> bool" where
  "ok r = (\<not> (400 \<le> status_code r \<and> status_code r < 600))"

text \<open>
  The world outside the process: \<open>remote\<close> is what a GET of a URL yields (a response,
  or the name of the exception \<^verbatim>\<open>requests.get\<close> raises), and \<open>requested\<close> is the list
  of the URLs requested so far.
\<close>

record world =
  remote :: "str \<Rightarrow> string + response"
  requested :: "str list"

definition requests_get :: "world \<Rightarrow> str \<Rightarrow> (error + response) \<times> world" where
  "requests_get w url =
     ((case remote w url of Inl x \<Rightarrow> Inl (RequestsError x) | Inr r \<Rightarrow> Inr r),
      w\<lparr>requested := requested w @ [url]\<rparr>)"

fun join :: "str \<Rightarrow> str list \<Rightarrow> str" where
  "join sep [] = []"
| "join sep [x] = x"
| "join sep (x # y # ys) = x @ sep @ join sep (y # ys)"

definition request_config :: "world \<Rightarrow> str \<Rightarrow> (error + str option) \<times> world" where
  "request_config w self_domain =
     (let config_url = join (py ''/'') [DATABASE_URL, self_domain]
      in case requests_get w config_url of
           (Inl e, w') \<Rightarrow> (Inl e, w')
         | (Inr r, w') \<Rightarrow> (Inr (if ok r then Some (response_text r) else None), w'))"

subsection \<open>\<^verbatim>\<open>ClientConfig.parse_config\<close>\<close>

text \<open>\<^verbatim>\<open>attr.key.cdata\<close>\<close>

definition child_cdata :: "element \<Rightarrow> str \<Rightarrow> error + str" where
  "child_cdata attr key = and_then (getattr_element attr key) cdata_node"

text \<open>\<^verbatim>\<open>int(text)\<close>\<close>

definition int_of :: "library \<Rightarrow> str \<Rightarrow> error + int" where
  "int_of L t = (case py_int L t of None \<Rightarrow> Inl ValueError | Some n \<Rightarrow> Inr n)"

text \<open>The body of the inner loop: the \<^verbatim>\<open>ServerConfig\<close> of one server element.\<close>

definition server_of :: "library \<Rightarrow> element \<Rightarrow> error + ServerConfig" where
  "server_of L attr =
     (let protocol_v = getitem_element attr (py ''type'') in
      and_then (child_cdata attr (py ''hostname'')) (\<lambda>hostname_v.
      and_then (child_cdata attr (py ''port'')) (\<lambda>port_text.
      and_then (int_of L port_text) (\<lambda>port_v.
      and_then (child_cdata attr (py ''socketType'')) (\<lambda>socket_type_v.
      and_then (child_cdata attr (py ''authentication'')) (\<lambda>authentication_v.
      and_then (child_cdata attr (py ''username'')) (\<lambda>username_v.
      Inr \<lparr>protocol = protocol_v, hostname = hostname_v, port = port_v,
           socket_type = socket_type_v, authentication = authentication_v,
           username = username_v\<rparr>)))))))"

text \<open>The inner loop \<^verbatim>\<open>for attr in _config\<close>, appending to \<^verbatim>\<open>servers\<close>.\<close>

fun append_servers :: "library \<Rightarrow> element list \<Rightarrow> ServerConfig list \<Rightarrow> error + ServerConfig list" where
  "append_servers L [] servers = Inr servers"
| "append_servers L (attr # rest) servers =
     and_then (server_of L attr) (\<lambda>server. append_servers L rest (servers @ [server]))"

definition untangle :: "library \<Rightarrow> str \<Rightarrow> error + element" where
  "untangle L t = (case untangle_parse L t of Inl x \<Rightarrow> Inl (UntangleError x) | Inr doc \<Rightarrow> Inr doc)"

text \<open>
  The result is the pair of \<^verbatim>\<open>self.emailProvider\<close> and the returned list. The tuple
  \<^verbatim>\<open>root.incomingServer, root.outgoingServer\<close> is built before the outer loop starts.
\<close>

definition parse_config :: "library \<Rightarrow> str \<Rightarrow> error + (str option \<times> ServerConfig list)" where
  "parse_config L self_xml =
     and_then (untangle L self_xml) (\<lambda>doc.
     and_then (getattr_element doc (py ''clientConfig'')) (\<lambda>cc.
     and_then (getattr_node cc (py ''emailProvider'')) (\<lambda>root.
     and_then (getitem_node root (py ''id'')) (\<lambda>provider_id.
     and_then (getattr_node root (py ''incomingServer'')) (\<lambda>incoming.
     and_then (getattr_node root (py ''outgoingServer'')) (\<lambda>outgoing.
     and_then (append_servers L (iter_node incoming) []) (\<lambda>servers1.
     and_then (append_servers L (iter_node outgoing) servers1) (\<lambda>servers2.
     Inr (provider_id, servers2)))))))))"

subsection \<open>\<^verbatim>\<open>ClientConfig.__init__\<close>\<close>

text \<open>\<^verbatim>\<open>not self.xml\<close> holds for \<^verbatim>\<open>None\<close> and for the empty string.\<close>

definition ClientConfig_init :: "library \<Rightarrow> world \<Rightarrow> str \<Rightarrow> (error + ClientConfig) \<times> world" where
  "ClientConfig_init L w domain_arg =
     (case fix_url L domain_arg of
        Inl e \<Rightarrow> (Inl e, w)
      | Inr self_domain \<Rightarrow>
          (case request_config w self_domain of
             (Inl e, w') \<Rightarrow> (Inl e, w')
           | (Inr self_xml, w') \<Rightarrow>
               (if self_xml = None \<or> self_xml = Some [] then (Inl NoConfigurationFound, w')
                else (case parse_config L (the self_xml) of
                        Inl e \<Rightarrow> (Inl e, w')
                      | Inr (provider_id, servers) \<Rightarrow>
                          (Inr \<lparr>domain = self_domain, xml = the self_xml,
                                emailProvider = provider_id, configs = servers\<rparr>, w')))))"

subsection \<open>The lookups\<close>

text \<open>\<^verbatim>\<open>_get_config\<close>: the loop over \<^verbatim>\<open>self.configs\<close>, \<open>None\<close> when it falls through.\<close>

fun scan_configs :: "library \<Rightarrow> ServerConfig list \<Rightarrow> str \<Rightarrow> ServerConfig option" where
  "scan_configs L [] p = None"
| "scan_configs L (c # cs) p =
     (if protocol c = Some (lower L p) then Some c else scan_configs L cs p)"

definition get_config' :: "library \<Rightarrow> ClientConfig \<Rightarrow> str \<Rightarrow> ServerConfig option" where
  "get_config' L self p = scan_configs L (configs self) p"

definition get_config :: "library \<Rightarrow> world \<Rightarrow> str \<Rightarrow> str \<Rightarrow> (error + ServerConfig option) \<times> world" where
  "get_config L w domain_arg p =
     (case ClientConfig_init L w domain_arg of
        (Inl e, w') \<Rightarrow> (Inl e, w')
      | (Inr self, w') \<Rightarrow> (Inr (get_config' L self p), w'))"

definition get_protocol :: "library \<Rightarrow> ClientConfig \<Rightarrow> str \<Rightarrow> ServerConfig option" where
  "get_protocol L self p = get_config' L self p"

text \<open>\<^verbatim>\<open>_get_configs\<close>\<close>

definition get_configs' :: "ClientConfig \<Rightarrow> ServerConfig list" where
  "get_configs' self = configs self"

definition get_configs :: "library \<Rightarrow> world \<Rightarrow> str \<Rightarrow> (error + ServerConfig list) \<times> world" where
  "get_configs L w domain_arg =
     (case ClientConfig_init L w domain_arg of
        (Inl e, w') \<Rightarrow> (Inl e, w')
      | (Inr self, w') \<Rightarrow> (Inr (get_configs' self), w'))"

subsection \<open>Notions used to state the properties\<close>

text \<open>The children of an element with a given name, in document order.\<close>

definition get_elements :: "element \<Rightarrow> str \<Rightarrow> element list" where
  "get_elements e key = filter (\<lambda>x. name x = key) (children e)"

definition incoming_servers :: "element \<Rightarrow> element list" where
  "incoming_servers ep = get_elements ep (py ''incomingServer'')"

definition outgoing_servers :: "element \<Rightarrow> element list" where
  "outgoing_servers ep = get_elements ep (py ''outgoingServer'')"

text \<open>
  The provider element of a parsed document: the single \<^verbatim>\<open>emailProvider\<close> child of the
  single \<^verbatim>\<open>clientConfig\<close> child of the root.
\<close>

definition provider_of :: "element \<Rightarrow> element option" where
  "provider_of doc =
     (case get_elements doc (py ''clientConfig'') of
        [cc] \<Rightarrow> (case get_elements cc (py ''emailProvider'') of [ep] \<Rightarrow> Some ep | _ \<Rightarrow> None)
      | _ \<Rightarrow> None)"

definition required_children :: "str list" where
  "required_children = [py ''hostname'', py ''port'', py ''socketType'', py ''authentication'', py ''username'']"

text \<open>
  A well-formed server element has exactly one child of each required name, and the text
  of its port is an integer.
\<close>

definition server_wf :: "library \<Rightarrow> element \<Rightarrow> bool" where
  "server_wf L s =
     ((\<forall>k \<in> set required_children. length (get_elements s k) = 1)
      \<and> (\<forall>c \<in> set (get_elements s (py ''port'')). py_int L (cdata c) \<noteq> None))"

definition lacks_child :: "element \<Rightarrow> bool" where
  "lacks_child s = (\<exists>k \<in> set required_children. get_elements s k = [])"

text \<open>
  A parsed document that misses an element the traversal expects: the \<^verbatim>\<open>clientConfig\<close>
  element, its \<^verbatim>\<open>emailProvider\<close>, the incoming or the outgoing servers, or a required
  child of a server element.
\<close>

definition missing_element :: "element \<Rightarrow> bool" where
  "missing_element doc =
     (case get_elements doc (py ''clientConfig'') of
        [] \<Rightarrow> True
      | [cc] \<Rightarrow>
          (case get_elements cc (py ''emailProvider'') of
             [] \<Rightarrow> True
           | [ep] \<Rightarrow> incoming_servers ep = [] \<or> outgoing_servers ep = []
                      \<or> (\<exists>s \<in> set (incoming_servers ep @ outgoing_servers ep). lacks_child s)
           | _ \<Rightarrow> False)
      | _ \<Rightarrow> False)"

text \<open>
  The network location as the characters of the input: what follows the scheme, without
  tab, carriage return and line feed, up to the first of \<^verbatim>\<open>/ ? #\<close>.
\<close>

definition after_scheme :: "str \<Rightarrow> str" where
  "after_scheme d = (if startswith d (py ''http://'') then drop 7 d
                     else if startswith d (py ''https://'') then drop 8 d else d)"

definition safe_chars :: "str \<Rightarrow> str" where
  "safe_chars s = filter (\<lambda>c. c \<notin> set UNSAFE_URL_BYTES_TO_REMOVE) s"

definition netloc_part :: "str \<Rightarrow> str" where
  "netloc_part s = takeWhile (\<lambda>c. c \<notin> set (py ''/?#'')) (safe_chars s)"

text \<open>
  The match of the specification's lookup: the protocol field of the entry equals the
  query up to the case of the letters.
\<close>

definition ci_match :: "library \<Rightarrow> str \<Rightarrow> ServerConfig \<Rightarrow> bool" where
  "ci_match L p c = (case protocol c of None \<Rightarrow> False | Some q \<Rightarrow> lower L q = lower L p)"

text \<open>
  A fact of the Unicode tables, as a property of the library: what \<^verbatim>\<open>str.lower\<close> puts
  in the place of a code point above 255 contains no upper-case letter of the range
  0..255.
\<close>

definition no_latin1_upper_above :: "library \<Rightarrow> bool" where
  "no_latin1_upper_above L =
     (\<forall>s i. i < length s \<and> 256 \<le> s ! i \<longrightarrow> (\<forall>ch \<in> set (unicode_lower L s i). \<not> isupper_latin1 ch))"

subsection \<open>Example documents\<close>

text \<open>The XML text of an element.\<close>

fun render :: "element \<Rightarrow> str" where
  "render (Element n attrs cs t) =
     (py ''<'') @ n @ concat (map (\<lambda>(k, v). (py '' '') @ k @ py ''='' @ [0x27] @ v @ [0x27]) attrs)
       @ py ''>'' @ t @ concat (map render cs) @ py ''</'' @ n @ py ''>''"

definition leaf :: "str \<Rightarrow> str \<Rightarrow> element" where
  "leaf k t = Element k [] [] t"

definition server_element ::
  "str \<Rightarrow> (str \<times> str) list \<Rightarrow> str \<Rightarrow> str \<Rightarrow> str \<Rightarrow> element" where
  "server_element tag attrs host port_text sock =
     Element tag attrs
       [leaf (py ''hostname'') host, leaf (py ''port'') port_text, leaf (py ''socketType'') sock,
        leaf (py ''authentication'') (py ''password-cleartext''), leaf (py ''username'') (py ''%EMAILADDRESS%'')] []"

definition provider_element :: "element list \<Rightarrow> element" where
  "provider_element servers = Element (py ''emailProvider'') [(py ''id'', py ''example.com'')] servers []"

definition client_config :: "element list \<Rightarrow> element" where
  "client_config servers = Element (py ''clientConfig'') [(py ''version'', py ''1.1'')] [provider_element servers] []"

text \<open>The root that the parser returns for a document element.\<close>

definition parsed :: "element \<Rightarrow> element" where
  "parsed e = Element [] [] [e] []"

text \<open>
  A library whose parser accepts the text of one document and rejects every other text,
  and whose \<^verbatim>\<open>int\<close> reads the two port numbers of the examples. Above 255 it knows
  the one code point of the examples, U+2102 (the double-struck capital C): an upper-case
  letter that \<^verbatim>\<open>str.lower\<close> leaves as it is.
\<close>

definition example_library :: "element \<Rightarrow> library" where
  "example_library e =
     \<lparr>check_bracketed_netloc = (\<lambda>n. False), nfkc_netloc_ok = (\<lambda>n. True),
      untangle_parse = (\<lambda>x. if x = render e then Inr (parsed e) else Inl ''SAXParseException''),
      py_int = (\<lambda>x. if x = py ''993'' then Some 993 else if x = py ''587'' then Some 587 else None),
      unicode_lower = (\<lambda>s i. [s ! i]),
      unicode_isupper = (\<lambda>c. c = 0x2102)\<rparr>"

text \<open>
  A world in which the database answers the request for \<^verbatim>\<open>example.com\<close> with the given
  status code and body, and nothing has been requested yet.
\<close>

definition example_world :: "nat \<Rightarrow> str \<Rightarrow> world" where
  "example_world code body =
     \<lparr>remote = (\<lambda>url. if url = py ''https://autoconfig.thunderbird.net/v1.1/example.com''
                       then Inr \<lparr>status_code = code, response_text = body\<rparr>
                       else Inl ''ConnectionError''),
      requested = []\<rparr>"

definition imap_element :: element where
  "imap_element =
     server_element (py ''incomingServer'') [(py ''type'', py ''imap'')] (py ''imap.example.com'') (py ''993'') (py ''SSL'')"

definition smtp_element :: element where
  "smtp_element =
     server_element (py ''outgoingServer'') [(py ''type'', py ''smtp'')] (py ''smtp.example.com'') (py ''587'') (py ''STARTTLS'')"

definition imap_config :: ServerConfig where
  "imap_config =
     \<lparr>protocol = Some (py ''imap''), hostname = py ''imap.example.com'', port = 993,
      socket_type = py ''SSL'', authentication = py ''password-cleartext'',
      username = py ''%EMAILADDRESS%''\<rparr>"

definition smtp_config :: ServerConfig where
  "smtp_config =
     \<lparr>protocol = Some (py ''smtp''), hostname = py ''smtp.example.com'', port = 587,
      socket_type = py ''STARTTLS'', authentication = py ''password-cleartext'',
      username = py ''%EMAILADDRESS%''\<rparr>"

text \<open>An incoming server whose type is written in upper case, and one without a type.\<close>

definition upper_imap_element :: element where
  "upper_imap_element =
     server_element (py ''incomingServer'') [(py ''type'', py ''IMAP'')] (py ''imap.example.com'') (py ''993'') (py ''SSL'')"

definition untyped_element :: element where
  "untyped_element =
     server_element (py ''incomingServer'') [] (py ''imap.example.com'') (py ''993'') (py ''SSL'')"

text \<open>An incoming server whose type is the one letter U+2102.\<close>

definition struck_element :: element where
  "struck_element =
     server_element (py ''incomingServer'') [(py ''type'', [0x2102])] (py ''imap.example.com'')
       (py ''993'') (py ''SSL'')"

definition struck_config :: ServerConfig where
  "struck_config = imap_config\<lparr>protocol := Some [0x2102]\<rparr>"

text \<open>An outgoing server without a port.\<close>

definition portless_element :: element where
  "portless_element =
     Element (py ''outgoingServer'') [(py ''type'', py ''smtp'')]
       [leaf (py ''hostname'') (py ''smtp.example.com''), leaf (py ''socketType'') (py ''STARTTLS''),
        leaf (py ''authentication'') (py ''password-cleartext''), leaf (py ''username'') (py ''%EMAILADDRESS%'')] []"

definition upper_imap_config :: ServerConfig where
  "upper_imap_config = imap_config\<lparr>protocol := Some (py ''IMAP'')\<rparr>"

definition untyped_config :: ServerConfig where
  "untyped_config = imap_config\<lparr>protocol := None\<rparr>"

section \<open>Properties\<close>

subsection \<open>Literals\<close>

lemma py_eq_iff [simp]: "(py a = py b) = (a = b)"
proof -
  have "inj (of_char :: char \<Rightarrow> nat)" by (rule injI) simp
  then show ?thesis by (simp add: py_def inj_map_eq_map)
qed

lemma py_Nil [simp]: "py [] = []"
  by (simp add: py_def)

lemma py_eq_Nil [simp]: "(py a = []) = (a = [])" "([] = py a) = (a = [])"
  by (auto simp: py_def)

lemma length_py [simp]: "length (py a) = length a"
  by (simp add: py_def)

lemma take_py [simp]: "take n (py a) = py (take n a)"
  by (simp add: py_def take_map)

lemma drop_py [simp]: "drop n (py a) = py (drop n a)"
  by (simp add: py_def drop_map)

subsection \<open>The network location\<close>

lemma urlsplit_http: "urlsplit_netloc L (py ''http://'' @ r) = validate_netloc L (netloc_part r)"
  by (simp add: py_def urlsplit_netloc_def WHATWG_C0_CONTROL_OR_SPACE_def UNSAFE_URL_BYTES_TO_REMOVE_def
      strip_scheme_def isascii_alpha_def scheme_chars_def splitnetloc_def netloc_part_def safe_chars_def)

lemma urlsplit_https: "urlsplit_netloc L (py ''https://'' @ r) = validate_netloc L (netloc_part r)"
  by (simp add: py_def urlsplit_netloc_def WHATWG_C0_CONTROL_OR_SPACE_def UNSAFE_URL_BYTES_TO_REMOVE_def
      strip_scheme_def isascii_alpha_def scheme_chars_def splitnetloc_def netloc_part_def safe_chars_def)

lemma startswithE: "startswith s p \<Longrightarrow> \<exists>r. s = p @ r"
  unfolding startswith_def by (metis append_take_drop_id)

lemma startswith_app [simp]: "startswith (p @ r) p"
  by (simp add: startswith_def)

lemma after_scheme_http: "after_scheme (py ''http://'' @ r) = r"
  using startswith_app[of "py ''http://''" r] by (simp add: after_scheme_def del: startswith_app)

lemma not_http_https: "\<not> startswith (py ''https://'' @ r) (py ''http://'')"
  by (simp add: startswith_def)

lemma after_scheme_https: "after_scheme (py ''https://'' @ r) = r"
  using startswith_app[of "py ''https://''" r] not_http_https[of r]
  by (simp add: after_scheme_def del: startswith_app)

lemma fix_url_eq: "fix_url L d = validate_netloc L (netloc_part (after_scheme d))"
proof (cases "startswith d (py ''http://'')")
  case True
  then obtain r where d: "d = py ''http://'' @ r" using startswithE by blast
  have "fix_url L d = urlsplit_netloc L d" using True by (simp add: fix_url_def)
  then show ?thesis unfolding d by (simp only: urlsplit_http after_scheme_http)
next
  case False
  show ?thesis
  proof (cases "startswith d (py ''https://'')")
    case True
    then obtain r where d: "d = py ''https://'' @ r" using startswithE by blast
    have "fix_url L d = urlsplit_netloc L d" using True by (simp add: fix_url_def)
    then show ?thesis unfolding d by (simp only: urlsplit_https after_scheme_https)
  next
    case F2: False
    have "fix_url L d = urlsplit_netloc L (py ''http://'' @ d)"
      using False F2 by (simp add: fix_url_def)
    moreover have "after_scheme d = d" using False F2 by (simp add: after_scheme_def)
    ultimately show ?thesis by (simp only: urlsplit_http)
  qed
qed

lemma validate_netloc_Inr: "validate_netloc L n = Inr y \<Longrightarrow> y = n"
  by (auto simp: validate_netloc_def Let_def split: if_splits)

lemma netloc_part_no_delim: "c \<in> set (netloc_part s) \<Longrightarrow> c \<notin> set (py ''/?#'')"
  unfolding netloc_part_def by (metis set_takeWhileD)

lemma netloc_part_safe: "c \<in> set (netloc_part s) \<Longrightarrow> c \<notin> set UNSAFE_URL_BYTES_TO_REMOVE"
  unfolding netloc_part_def safe_chars_def by (auto dest: set_takeWhileD)

lemma netloc_part_id:
  assumes "\<forall>c \<in> set y. c \<notin> set (py ''/?#'')" "\<forall>c \<in> set y. c \<notin> set UNSAFE_URL_BYTES_TO_REMOVE"
  shows "netloc_part y = y"
proof -
  have "safe_chars y = y" using assms(2) by (simp add: safe_chars_def)
  moreover have "takeWhile (\<lambda>c. c \<notin> set (py ''/?#'')) y = y" using assms(1) by (simp add: takeWhile_eq_all_conv)
  ultimately show ?thesis by (simp add: netloc_part_def)
qed

lemma no_slash_no_scheme:
  assumes "ord CHR ''/'' \<notin> set y"
  shows "\<not> startswith y (py ''http://'') \<and> \<not> startswith y (py ''https://'')"
proof -
  { fix p assume "startswith y p" "ord CHR ''/'' \<in> set p"
    then obtain r where "y = p @ r" using startswithE by blast
    with \<open>ord CHR ''/'' \<in> set p\<close> assms have False by simp }
  from this[of "py ''http://''"] this[of "py ''https://''"] show ?thesis by (auto simp: py_def)
qed

lemma netloc_part_fix: "after_scheme (netloc_part s) = netloc_part s"
proof -
  have "ord CHR ''/'' \<notin> set (netloc_part s)"
    using netloc_part_no_delim[of "ord CHR ''/''" s] by (auto simp: py_def)
  then show ?thesis using no_slash_no_scheme by (simp add: after_scheme_def)
qed

lemma netloc_part_idem: "netloc_part (netloc_part s) = netloc_part s"
  by (rule netloc_part_id) (auto dest: netloc_part_no_delim netloc_part_safe)

lemma fix_url_idem: "(case fix_url L x of Inl e \<Rightarrow> Inl e | Inr y \<Rightarrow> fix_url L y) = fix_url L x"
proof (cases "fix_url L x")
  case (Inl e)
  then show ?thesis by simp
next
  case (Inr y)
  then have y: "y = netloc_part (after_scheme x)" 
    using validate_netloc_Inr[of L "netloc_part (after_scheme x)" y] by (simp add: fix_url_eq)
  have "fix_url L y = validate_netloc L (netloc_part (after_scheme y))" by (rule fix_url_eq)
  also have "\<dots> = validate_netloc L y" by (simp add: y netloc_part_fix netloc_part_idem)
  also have "\<dots> = Inr y" using Inr by (simp add: fix_url_eq y)
  finally show ?thesis using Inr by simp
qed

subsection \<open>Elements and server entries\<close>

lemma getattr_element_Inr:
  "getattr_element e k = Inr v \<Longrightarrow> get_elements e k \<noteq> [] \<and> iter_node v = get_elements e k"
  by (auto simp: getattr_element_def get_elements_def iter_node_def Let_def length_Suc_conv split: if_splits)

lemma getattr_element_Inl:
  "getattr_element e k = Inl err \<Longrightarrow> get_elements e k = [] \<and> err = AttributeError"
  by (auto simp: getattr_element_def get_elements_def Let_def split: if_splits)

lemma getattr_element_none: "get_elements e k = [] \<Longrightarrow> getattr_element e k = Inl AttributeError"
  by (simp add: getattr_element_def get_elements_def)

lemma getattr_element_one: "get_elements e k = [c] \<Longrightarrow> getattr_element e k = Inr (Elem c)"
  by (simp add: getattr_element_def get_elements_def)

lemma getattr_element_some:
  "get_elements e k \<noteq> [] \<Longrightarrow> \<exists>v. getattr_element e k = Inr v \<and> iter_node v = get_elements e k"
  by (auto simp: getattr_element_def get_elements_def iter_node_def Let_def length_Suc_conv)

lemma child_cdata_one: "get_elements s k = [c] \<Longrightarrow> child_cdata s k = Inr (cdata c)"
  by (simp add: child_cdata_def getattr_element_one and_then_def cdata_node_def)

lemma child_cdata_none: "get_elements s k = [] \<Longrightarrow> child_cdata s k = Inl AttributeError"
  by (simp add: child_cdata_def getattr_element_none and_then_def)

lemma child_cdata_Inl: "child_cdata s k = Inl err \<Longrightarrow> err = AttributeError"
  by (auto simp: child_cdata_def and_then_def cdata_node_def dest: getattr_element_Inl split: sum.splits node.splits)

lemma int_of_Inl: "int_of L t = Inl err \<Longrightarrow> err = ValueError"
  by (auto simp: int_of_def split: option.splits)

lemma and_then_Inl: "and_then m f = Inl err \<Longrightarrow> m = Inl err \<or> (\<exists>x. m = Inr x \<and> f x = Inl err)"
  by (auto simp: and_then_def split: sum.splits)

lemma and_then_Inr: "and_then m f = Inr y \<Longrightarrow> \<exists>x. m = Inr x \<and> f x = Inr y"
  by (auto simp: and_then_def split: sum.splits)

lemma and_then_simps [simp]: "and_then (Inl e) f = Inl e" "and_then (Inr x) f = f x"
  by (simp_all add: and_then_def)

lemma server_of_Inl: "server_of L s = Inl err \<Longrightarrow> err = AttributeError \<or> err = ValueError"
  unfolding server_of_def Let_def
  by (auto dest!: and_then_Inl dest: child_cdata_Inl int_of_Inl)

lemma child_cdata_Inr: "child_cdata s k = Inr t \<Longrightarrow> \<exists>c. get_elements s k = [c] \<and> cdata c = t"
  by (auto simp: child_cdata_def cdata_node_def getattr_element_def get_elements_def Let_def
      length_Suc_conv dest!: and_then_Inr split: node.splits if_splits)

lemma server_of_Inr:
  assumes "server_of L s = Inr c"
  shows "\<forall>k \<in> set required_children. \<exists>ch. get_elements s k = [ch]"
proof -
  from assms obtain h p n so a u where
    "child_cdata s (py ''hostname'') = Inr h" "child_cdata s (py ''port'') = Inr p" "int_of L p = Inr n"
    "child_cdata s (py ''socketType'') = Inr so" "child_cdata s (py ''authentication'') = Inr a"
    "child_cdata s (py ''username'') = Inr u"
    unfolding server_of_def Let_def by (auto dest!: and_then_Inr)
  then show ?thesis
    unfolding required_children_def by (auto dest: child_cdata_Inr)
qed

lemma server_of_lacks: "lacks_child s \<Longrightarrow> \<exists>err. server_of L s = Inl err"
proof (cases "server_of L s")
  case (Inl e)
  then show ?thesis by blast
next
  case (Inr c)
  assume "lacks_child s"
  then obtain k where "k \<in> set required_children" "get_elements s k = []"
    unfolding lacks_child_def by blast
  with server_of_Inr[OF Inr] show ?thesis by fastforce
qed

lemma server_wf_child:
  assumes "server_wf L s" "k \<in> set required_children"
  shows "\<exists>c. get_elements s k = [c]"
proof -
  have "length (get_elements s k) = 1" using assms unfolding server_wf_def by blast
  then show ?thesis by (cases "get_elements s k") auto
qed

lemma server_of_wf:
  assumes wf: "server_wf L s"
  shows "\<exists>c. server_of L s = Inr c"
proof -
  obtain h where h: "get_elements s (py ''hostname'') = [h]"
    using server_wf_child[OF wf, of "py ''hostname''"] unfolding required_children_def by auto
  obtain p where p: "get_elements s (py ''port'') = [p]"
    using server_wf_child[OF wf, of "py ''port''"] unfolding required_children_def by auto
  obtain so where so: "get_elements s (py ''socketType'') = [so]"
    using server_wf_child[OF wf, of "py ''socketType''"] unfolding required_children_def by auto
  obtain a where a: "get_elements s (py ''authentication'') = [a]"
    using server_wf_child[OF wf, of "py ''authentication''"] unfolding required_children_def by auto
  obtain u where u: "get_elements s (py ''username'') = [u]"
    using server_wf_child[OF wf, of "py ''username''"] unfolding required_children_def by auto
  have "py_int L (cdata p) \<noteq> None" using wf p unfolding server_wf_def by simp
  then obtain n where n: "int_of L (cdata p) = Inr n" by (auto simp: int_of_def)
  show ?thesis
    unfolding server_of_def Let_def
    by (simp only: child_cdata_one[OF h] child_cdata_one[OF p] child_cdata_one[OF so]
        child_cdata_one[OF a] child_cdata_one[OF u] n and_then_simps) blast
qed

lemma append_servers_Inr:
  "append_servers L es acc = Inr r \<Longrightarrow> \<exists>ss. r = acc @ ss \<and> map (server_of L) es = map Inr ss"
proof (induction es arbitrary: acc)
  case Nil
  then show ?case by simp
next
  case (Cons a es)
  from Cons.prems obtain c where c: "server_of L a = Inr c" "append_servers L es (acc @ [c]) = Inr r"
    by (auto dest: and_then_Inr)
  from Cons.IH[OF c(2)] obtain ss where "r = (acc @ [c]) @ ss" "map (server_of L) es = map Inr ss" by blast
  then have "r = acc @ (c # ss) \<and> map (server_of L) (a # es) = map Inr (c # ss)" using c(1) by simp
  then show ?case by blast
qed

lemma append_servers_ok:
  "map (server_of L) es = map Inr ss \<Longrightarrow> append_servers L es acc = Inr (acc @ ss)"
proof (induction es arbitrary: acc ss)
  case Nil
  then show ?case by simp
next
  case (Cons a es)
  then obtain c cs where ss: "ss = c # cs" "server_of L a = Inr c" "map (server_of L) es = map Inr cs"
    by (cases ss) auto
  show ?case using Cons.IH[OF ss(3), of "acc @ [c]"] ss by simp
qed

lemma append_servers_Inl:
  "append_servers L es acc = Inl err \<Longrightarrow> \<exists>s \<in> set es. server_of L s = Inl err"
proof (induction es arbitrary: acc)
  case Nil
  then show ?case by simp
next
  case (Cons a es)
  then show ?case by (cases "server_of L a") auto
qed

lemma append_servers_fails:
  "s \<in> set es \<Longrightarrow> server_of L s = Inl e0 \<Longrightarrow> \<exists>err. append_servers L es acc = Inl err"
proof (induction es arbitrary: acc)
  case Nil
  then show ?case by simp
next
  case (Cons a es)
  then show ?case by (cases "server_of L a") auto
qed

lemma all_wf_servers:
  "\<forall>s \<in> set es. server_wf L s \<Longrightarrow> \<exists>ss. map (server_of L) es = map Inr ss"
proof (induction es)
  case Nil
  then show ?case by simp
next
  case (Cons a es)
  then obtain ss where ss: "map (server_of L) es = map Inr ss" by auto
  from Cons.prems have "server_wf L a" by simp
  then obtain c where "server_of L a = Inr c" using server_of_wf by blast
  with ss have "map (server_of L) (a # es) = map Inr (c # ss)" by simp
  then show ?case by blast
qed

lemma provider_ofD:
  "provider_of doc = Some ep \<Longrightarrow>
     \<exists>cc. get_elements doc (py ''clientConfig'') = [cc] \<and> get_elements cc (py ''emailProvider'') = [ep]"
  by (auto simp: provider_of_def split: list.splits)

lemma untangle_Inr [simp]: "untangle_parse L t = Inr doc \<Longrightarrow> untangle L t = Inr doc"
  by (simp add: untangle_def)

lemma untangle_Inl [simp]: "untangle_parse L t = Inl x \<Longrightarrow> untangle L t = Inl (UntangleError x)"
  by (simp add: untangle_def)

lemma parse_config_provider:
  assumes "untangle_parse L t = Inr doc" "provider_of doc = Some ep"
  shows "parse_config L t =
           and_then (getattr_element ep (py ''incomingServer'')) (\<lambda>incoming.
           and_then (getattr_element ep (py ''outgoingServer'')) (\<lambda>outgoing.
           and_then (append_servers L (iter_node incoming) []) (\<lambda>servers1.
           and_then (append_servers L (iter_node outgoing) servers1) (\<lambda>servers2.
           Inr (getitem_element ep (py ''id''), servers2)))))"
proof -
  from provider_ofD[OF assms(2)] obtain cc where
    cc: "get_elements doc (py ''clientConfig'') = [cc]" "get_elements cc (py ''emailProvider'') = [ep]" by blast
  show ?thesis
    by (simp add: parse_config_def assms(1) getattr_element_one[OF cc(1)] getattr_node_def
        getattr_element_one[OF cc(2)] getitem_node_def)
qed

lemma parse_config_ok:
  assumes "untangle_parse L t = Inr doc" "provider_of doc = Some ep"
    and "incoming_servers ep \<noteq> []" "outgoing_servers ep \<noteq> []"
    and "map (server_of L) (incoming_servers ep @ outgoing_servers ep) = map Inr ss"
  shows "parse_config L t = Inr (getitem_element ep (py ''id''), ss)"
proof -
  obtain vi where vi: "getattr_element ep (py ''incomingServer'') = Inr vi" "iter_node vi = incoming_servers ep"
    using getattr_element_some[of ep "py ''incomingServer''"] assms(3) by (auto simp: incoming_servers_def)
  obtain vo where vo: "getattr_element ep (py ''outgoingServer'') = Inr vo" "iter_node vo = outgoing_servers ep"
    using getattr_element_some[of ep "py ''outgoingServer''"] assms(4) by (auto simp: outgoing_servers_def)
  let ?n = "length (incoming_servers ep)"
  have s1: "map (server_of L) (incoming_servers ep) = map Inr (take ?n ss)"
    using arg_cong[OF assms(5), of "take ?n"] by (simp add: take_map[symmetric])
  have s2: "map (server_of L) (outgoing_servers ep) = map Inr (drop ?n ss)"
    using arg_cong[OF assms(5), of "drop ?n"] by (simp add: drop_map[symmetric])
  show ?thesis
    by (simp add: parse_config_provider[OF assms(1,2)] vi vo
        append_servers_ok[OF s1] append_servers_ok[OF s2])
qed

lemma parse_config_no_server:
  assumes "untangle_parse L t = Inr doc" "provider_of doc = Some ep"
    and "incoming_servers ep = [] \<or> outgoing_servers ep = []"
  shows "parse_config L t = Inl AttributeError"
proof (cases "incoming_servers ep = []")
  case True
  then show ?thesis
    by (simp add: parse_config_provider[OF assms(1,2)] getattr_element_none incoming_servers_def)
next
  case False
  then obtain vi where vi: "getattr_element ep (py ''incomingServer'') = Inr vi"
    using getattr_element_some[of ep "py ''incomingServer''"] by (auto simp: incoming_servers_def)
  from False assms(3) have "get_elements ep (py ''outgoingServer'') = []" by (simp add: outgoing_servers_def)
  then show ?thesis
    by (simp add: parse_config_provider[OF assms(1,2)] vi getattr_element_none)
qed

lemma parse_config_Inr:
  assumes "parse_config L t = Inr (pid, ss)"
  shows "\<exists>doc cc root incoming outgoing.
           untangle_parse L t = Inr doc
         \<and> getattr_element doc (py ''clientConfig'') = Inr cc
         \<and> getattr_node cc (py ''emailProvider'') = Inr root
         \<and> getitem_node root (py ''id'') = Inr pid
         \<and> getattr_node root (py ''incomingServer'') = Inr incoming
         \<and> getattr_node root (py ''outgoingServer'') = Inr outgoing
         \<and> map (server_of L) (iter_node incoming @ iter_node outgoing) = map Inr ss"
proof -
  from assms obtain doc cc root pid' incoming outgoing s1 s2 where
    d: "untangle L t = Inr doc" "getattr_element doc (py ''clientConfig'') = Inr cc"
       "getattr_node cc (py ''emailProvider'') = Inr root" "getitem_node root (py ''id'') = Inr pid'"
       "getattr_node root (py ''incomingServer'') = Inr incoming"
       "getattr_node root (py ''outgoingServer'') = Inr outgoing"
       "append_servers L (iter_node incoming) [] = Inr s1"
       "append_servers L (iter_node outgoing) s1 = Inr s2" "(pid', s2) = (pid, ss)"
    unfolding parse_config_def by (auto dest!: and_then_Inr)
  from d(1) have u: "untangle_parse L t = Inr doc" by (auto simp: untangle_def split: sum.splits)
  from append_servers_Inr[OF d(7)] obtain a where a: "s1 = a" "map (server_of L) (iter_node incoming) = map Inr a" by auto
  from append_servers_Inr[OF d(8)] obtain b where b: "s2 = s1 @ b" "map (server_of L) (iter_node outgoing) = map Inr b" by auto
  have "ss = a @ b" using a(1) b(1) d(9) by simp
  then have "map (server_of L) (iter_node incoming @ iter_node outgoing) = map Inr ss"
    using a(2) b(2) by simp
  with d u show ?thesis by blast
qed

lemma parse_config_Inl:
  "parse_config L t = Inl err \<Longrightarrow>
     err = AttributeError \<or> err = TypeError \<or> err = ValueError \<or> (\<exists>x. err = UntangleError x)"
  unfolding parse_config_def
  by (auto dest!: and_then_Inl append_servers_Inl dest: getattr_element_Inl server_of_Inl
      simp: untangle_def getattr_node_def getitem_node_def split: sum.splits node.splits)

subsection \<open>Fetching and construction\<close>

lemma request_config_eq:
  "request_config w d =
     ((case remote w (DATABASE_URL @ py ''/'' @ d) of
         Inl x \<Rightarrow> Inl (RequestsError x)
       | Inr r \<Rightarrow> Inr (if ok r then Some (response_text r) else None)),
      w\<lparr>requested := requested w @ [DATABASE_URL @ py ''/'' @ d]\<rparr>)"
  by (simp add: request_config_def requests_get_def split: sum.splits)

lemma init_fetched:
  assumes "fix_url L d = Inr nd" "remote w (DATABASE_URL @ py ''/'' @ nd) = Inr r"
  shows "ClientConfig_init L w d =
           ((if \<not> ok r \<or> response_text r = [] then Inl NoConfigurationFound
             else (case parse_config L (response_text r) of
                     Inl e \<Rightarrow> Inl e
                   | Inr (pid, ss) \<Rightarrow>
                       Inr \<lparr>domain = nd, xml = response_text r, emailProvider = pid, configs = ss\<rparr>)),
            w\<lparr>requested := requested w @ [DATABASE_URL @ py ''/'' @ nd]\<rparr>)"
proof -
  have rc: "request_config w nd =
              (Inr (if ok r then Some (response_text r) else None),
               w\<lparr>requested := requested w @ [DATABASE_URL @ py ''/'' @ nd]\<rparr>)"
    unfolding request_config_eq assms(2) by simp
  show ?thesis
    by (cases "parse_config L (response_text r)") (auto simp: ClientConfig_init_def assms(1) rc)
qed

lemma init_requested:
  assumes "fix_url L d = Inr nd"
  shows "snd (ClientConfig_init L w d) = w\<lparr>requested := requested w @ [DATABASE_URL @ py ''/'' @ nd]\<rparr>"
proof -
  obtain res where rc: "request_config w nd =
      (res, w\<lparr>requested := requested w @ [DATABASE_URL @ py ''/'' @ nd]\<rparr>)"
    unfolding request_config_eq by blast
  show ?thesis
    by (cases res) (auto simp: ClientConfig_init_def assms rc split: sum.splits)
qed

subsection \<open>The example documents\<close>

lemma example_url:
  "DATABASE_URL @ py ''/'' @ py ''example.com'' = py ''https://autoconfig.thunderbird.net/v1.1/example.com''"
  by (simp add: py_def DATABASE_URL_def VERSION_def)

lemma example_remote:
  "remote (example_world code body) (DATABASE_URL @ py ''/'' @ py ''example.com'')
     = Inr \<lparr>status_code = code, response_text = body\<rparr>"
  by (simp only: example_url) (simp add: example_world_def)

lemma plain_netloc:
  "validate_netloc L (py ''example.com'') = Inr (py ''example.com'')"
  by (simp add: py_def validate_netloc_def checknetloc_def isascii_str_def)

lemmas netloc_eval = py_def fix_url_eq after_scheme_def startswith_def netloc_part_def safe_chars_def
  UNSAFE_URL_BYTES_TO_REMOVE_def validate_netloc_def checknetloc_def isascii_str_def

lemma fix_url_example: "fix_url L (py ''example.com'') = Inr (py ''example.com'')"
  by (simp add: netloc_eval)

lemma fix_url_example_path: "fix_url L (py ''http://example.com/path'') = Inr (py ''example.com'')"
  by (simp add: netloc_eval)

lemma fix_url_empty: "fix_url L [] = Inr []"
  by (simp add: fix_url_eq after_scheme_def startswith_def netloc_part_def safe_chars_def
      validate_netloc_def checknetloc_def)

lemma render_nonempty: "render e \<noteq> []"
  by (cases e) simp

lemma example_untangle: "untangle_parse (example_library e) (render e) = Inr (parsed e)"
  by (simp add: example_library_def)

lemma example_rejects: "t \<noteq> render e \<Longrightarrow> untangle_parse (example_library e) t = Inl ''SAXParseException''"
  by (simp add: example_library_def)

lemma example_provider: "provider_of (parsed (client_config servers)) = Some (provider_element servers)"
  by (simp add: provider_of_def parsed_def client_config_def provider_element_def get_elements_def)

lemma example_provider_id: "getitem_element (provider_element servers) (py ''id'') = Some (py ''example.com'')"
  by (simp add: provider_element_def getitem_element_def)

lemma imap_server_of: "server_of (example_library e) imap_element = Inr imap_config"
  by (simp add: server_of_def imap_element_def server_element_def leaf_def child_cdata_def
      getattr_element_def cdata_node_def int_of_def example_library_def getitem_element_def imap_config_def)

lemma smtp_server_of: "server_of (example_library e) smtp_element = Inr smtp_config"
  by (simp add: server_of_def smtp_element_def server_element_def leaf_def child_cdata_def
      getattr_element_def cdata_node_def int_of_def example_library_def getitem_element_def smtp_config_def)

lemma upper_imap_server_of:
  "server_of (example_library e) upper_imap_element = Inr upper_imap_config"
  by (simp add: server_of_def upper_imap_element_def server_element_def leaf_def child_cdata_def
      getattr_element_def cdata_node_def int_of_def example_library_def getitem_element_def imap_config_def
      upper_imap_config_def)

lemma untyped_server_of:
  "server_of (example_library e) untyped_element = Inr untyped_config"
  by (simp add: server_of_def untyped_element_def server_element_def leaf_def child_cdata_def
      getattr_element_def cdata_node_def int_of_def example_library_def getitem_element_def imap_config_def
      untyped_config_def)

lemma struck_server_of:
  "server_of (example_library e) struck_element = Inr struck_config"
  by (simp add: server_of_def struck_element_def server_element_def leaf_def child_cdata_def
      getattr_element_def cdata_node_def int_of_def example_library_def getitem_element_def imap_config_def
      struck_config_def)

lemma example_servers:
  "incoming_servers (provider_element [imap_element, smtp_element]) = [imap_element]"
  "outgoing_servers (provider_element [imap_element, smtp_element]) = [smtp_element]"
  by (simp_all add: incoming_servers_def outgoing_servers_def get_elements_def provider_element_def
      imap_element_def smtp_element_def server_element_def)

lemma example_parse:
  "parse_config (example_library (client_config [imap_element, smtp_element]))
     (render (client_config [imap_element, smtp_element]))
   = Inr (Some (py ''example.com''), [imap_config, smtp_config])"
  using parse_config_ok[OF example_untangle example_provider, of "[imap_element, smtp_element]" "[imap_config, smtp_config]"]
  by (simp add: example_servers imap_server_of smtp_server_of example_provider_id)

lemma example_init:
  "ClientConfig_init (example_library (client_config [imap_element, smtp_element]))
     (example_world 200 (render (client_config [imap_element, smtp_element]))) (py ''example.com'')
   = (Inr \<lparr>domain = py ''example.com'', xml = render (client_config [imap_element, smtp_element]),
           emailProvider = Some (py ''example.com''), configs = [imap_config, smtp_config]\<rparr>,
      example_world 200 (render (client_config [imap_element, smtp_element]))
        \<lparr>requested := [py ''https://autoconfig.thunderbird.net/v1.1/example.com'']\<rparr>)"
  using init_fetched[OF fix_url_example example_remote,
      of "example_library (client_config [imap_element, smtp_element])" 200
         "render (client_config [imap_element, smtp_element])"]
  by (simp add: ok_def render_nonempty example_parse example_url)
     (simp add: example_world_def DATABASE_URL_def VERSION_def)

subsection \<open>The lookups\<close>

lemma DATABASE_URL_value: "DATABASE_URL = py ''https://autoconfig.thunderbird.net/v1.1''"
  by (simp add: py_def DATABASE_URL_def VERSION_def)

lemma join_pair: "join sep [a, b] = a @ sep @ b"
  by simp

lemma lower_latin1_not_upper: "\<not> isupper_latin1 (lower_latin1 n)"
  by (auto simp: lower_latin1_def isupper_latin1_def)

lemma lower_latin1_small: "n < 256 \<Longrightarrow> lower_latin1 n < 256"
  by (auto simp: lower_latin1_def isupper_latin1_def)

lemma lower_from_latin1: "\<forall>c \<in> set cs. c < 256 \<Longrightarrow> lower_from L s i cs = map lower_latin1 cs"
  by (induction cs arbitrary: i) auto

lemma lower_latin1_str: "\<forall>c \<in> set p. c < 256 \<Longrightarrow> lower L p = map lower_latin1 p"
  by (simp add: lower_def lower_from_latin1)

lemma lower_no_upper:
  assumes "\<forall>c \<in> set p. c < 256" "ch \<in> set (lower L p)"
  shows "\<not> isupper_char L ch"
proof -
  from assms obtain n where n: "n \<in> set p" "ch = lower_latin1 n"
    by (auto simp: lower_latin1_str)
  with assms(1) have "ch < 256" using lower_latin1_small by blast
  with n(2) show ?thesis by (simp add: isupper_char_def lower_latin1_not_upper)
qed

lemma lower_from_no_latin1_upper:
  assumes "no_latin1_upper_above L"
    and "cs = drop i s" "ch \<in> set (lower_from L s i cs)"
  shows "\<not> isupper_latin1 ch"
  using assms(2-)
proof (induction cs arbitrary: i)
  case Nil
  then show ?case by simp
next
  case (Cons c cs)
  from Cons.prems(1) have i: "i < length s"
    by (metis drop_all list.distinct(1) not_le)
  from Cons.prems(1) i have c: "s ! i = c" and rest: "cs = drop (Suc i) s"
    by (simp_all add: Cons_nth_drop_Suc[symmetric])
  show ?case
  proof (cases "ch \<in> set (lower_from L s (Suc i) cs)")
    case True
    with Cons.IH[OF rest] show ?thesis by simp
  next
    case False
    with Cons.prems(2) have h: "ch \<in> set (if c < 256 then [lower_latin1 c] else unicode_lower L s i)"
      by auto
    show ?thesis
    proof (cases "c < 256")
      case True
      with h show ?thesis by (simp add: lower_latin1_not_upper)
    next
      case False
      with h have m: "ch \<in> set (unicode_lower L s i)" by simp
      from False c have "256 \<le> s ! i" by simp
      with assms(1) i m show ?thesis
        unfolding no_latin1_upper_above_def by blast
    qed
  qed
qed

lemma lower_no_latin1_upper:
  "no_latin1_upper_above L \<Longrightarrow> ch \<in> set (lower L p) \<Longrightarrow> \<not> isupper_latin1 ch"
  using lower_from_no_latin1_upper[of L p 0 p ch] by (simp add: lower_def)

lemma scan_configs_find: "scan_configs L cs p = find (\<lambda>x. protocol x = Some (lower L p)) cs"
  by (induction cs) auto

lemma scan_configs_Some: "scan_configs L cs p = Some c \<Longrightarrow> c \<in> set cs \<and> protocol c = Some (lower L p)"
  by (induction cs) (auto split: if_splits)

lemma lower_fixed: "lower L q = q \<Longrightarrow> (lower L q = lower L p) = (q = lower L p)"
  by simp

lemma find_ci_match:
  assumes "\<forall>x \<in> set cs. \<forall>q. protocol x = Some q \<longrightarrow> lower L q = q"
  shows "find (ci_match L p) cs = find (\<lambda>x. protocol x = Some (lower L p)) cs"
  using assms
proof (induction cs)
  case Nil
  then show ?case by simp
next
  case (Cons a cs)
  have "ci_match L p a = (protocol a = Some (lower L p))"
  proof (cases "protocol a")
    case None
    then show ?thesis by (simp add: ci_match_def)
  next
    case (Some q)
    with Cons.prems have "lower L q = q" by simp
    with Some show ?thesis by (auto simp: ci_match_def)
  qed
  with Cons show ?case by simp
qed

lemma get_config_resolved:
  "ClientConfig_init L w d = (Inr c, w') \<Longrightarrow>
     get_config L w d p = (Inr (find (\<lambda>x. protocol x = Some (lower L p)) (configs c)), w')"
  by (simp add: get_config_def get_config'_def scan_configs_find)

lemma get_config_Some:
  assumes "fst (get_config L w d p) = Inr (Some c)"
  shows "\<exists>self w'. ClientConfig_init L w d = (Inr self, w') \<and> scan_configs L (configs self) p = Some c"
proof -
  obtain res w' where i: "ClientConfig_init L w d = (res, w')" by (cases "ClientConfig_init L w d")
  show ?thesis using assms unfolding get_config_def i
    by (cases res) (auto simp: get_config'_def i)
qed

subsection \<open>Complete parses\<close>

lemma getattr_element_Elem: "getattr_element e k = Inr (Elem c) \<Longrightarrow> get_elements e k = [c]"
  by (auto simp: getattr_element_def get_elements_def Let_def length_Suc_conv split: if_splits)

lemma getattr_node_Inr: "getattr_node v k = Inr u \<Longrightarrow> \<exists>e. v = Elem e \<and> getattr_element e k = Inr u"
  by (cases v) (auto simp: getattr_node_def)

lemma getitem_node_Inr: "getitem_node v k = Inr a \<Longrightarrow> \<exists>e. v = Elem e \<and> a = getitem_element e k"
  by (cases v) (auto simp: getitem_node_def)

lemma provider_ofI:
  "get_elements doc (py ''clientConfig'') = [cc] \<Longrightarrow> get_elements cc (py ''emailProvider'') = [ep]
     \<Longrightarrow> provider_of doc = Some ep"
  by (simp add: provider_of_def)

text \<open>A successful parse has seen a single provider and every one of its server elements.\<close>

lemma parse_config_complete:
  assumes "parse_config L t = Inr (pid, ss)"
  shows "\<exists>doc ep. untangle_parse L t = Inr doc \<and> provider_of doc = Some ep
           \<and> pid = getitem_element ep (py ''id'')
           \<and> incoming_servers ep \<noteq> [] \<and> outgoing_servers ep \<noteq> []
           \<and> map (server_of L) (incoming_servers ep @ outgoing_servers ep) = map Inr ss"
proof -
  from parse_config_Inr[OF assms] obtain doc cc root incoming outgoing where
    d: "untangle_parse L t = Inr doc" "getattr_element doc (py ''clientConfig'') = Inr cc"
       "getattr_node cc (py ''emailProvider'') = Inr root" "getitem_node root (py ''id'') = Inr pid"
       "getattr_node root (py ''incomingServer'') = Inr incoming"
       "getattr_node root (py ''outgoingServer'') = Inr outgoing"
       "map (server_of L) (iter_node incoming @ iter_node outgoing) = map Inr ss"
    by blast
  from getattr_node_Inr[OF d(3)] obtain cce where cce: "cc = Elem cce" "getattr_element cce (py ''emailProvider'') = Inr root"
    by blast
  from getitem_node_Inr[OF d(4)] obtain ep where ep: "root = Elem ep" "pid = getitem_element ep (py ''id'')"
    by blast
  have p: "provider_of doc = Some ep"
    using getattr_element_Elem[of doc "py ''clientConfig''" cce] getattr_element_Elem[of cce "py ''emailProvider''" ep]
      d(2) cce ep(1) by (simp add: provider_ofI)
  from d(5) ep(1) have i: "getattr_element ep (py ''incomingServer'') = Inr incoming" by (simp add: getattr_node_def)
  from d(6) ep(1) have o: "getattr_element ep (py ''outgoingServer'') = Inr outgoing" by (simp add: getattr_node_def)
  from getattr_element_Inr[OF i] getattr_element_Inr[OF o]
  have "incoming_servers ep \<noteq> []" "outgoing_servers ep \<noteq> []"
       "iter_node incoming = incoming_servers ep" "iter_node outgoing = outgoing_servers ep"
    by (simp_all add: incoming_servers_def outgoing_servers_def)
  with d(1,7) p ep(2) show ?thesis by auto
qed

lemma map_Inr_server_of:
  "map (server_of L) es = map Inr ss \<Longrightarrow> s \<in> set es \<Longrightarrow> \<exists>c. server_of L s = Inr c"
proof -
  assume a: "map (server_of L) es = map Inr ss" and "s \<in> set es"
  then have "server_of L s \<in> set (map Inr ss)" by (metis image_eqI set_map)
  then show ?thesis by auto
qed

lemma parse_config_missing:
  assumes "untangle_parse L t = Inr doc" "missing_element doc"
  shows "\<exists>err. parse_config L t = Inl err \<and> (err = AttributeError \<or> err = ValueError)"
proof (cases "get_elements doc (py ''clientConfig'')")
  case Nil
  then show ?thesis by (simp add: parse_config_def assms(1) getattr_element_none)
next
  case (Cons cc rest)
  with assms(2) have cc: "get_elements doc (py ''clientConfig'') = [cc]"
    by (cases rest) (auto simp: missing_element_def)
  show ?thesis
  proof (cases "get_elements cc (py ''emailProvider'')")
    case Nil
    then show ?thesis
      by (simp add: parse_config_def assms(1) getattr_element_one[OF cc] getattr_node_def getattr_element_none)
  next
    case (Cons ep rest')
    with assms(2) cc have ep: "get_elements cc (py ''emailProvider'') = [ep]"
      by (cases rest') (auto simp: missing_element_def)
    have p: "provider_of doc = Some ep" using cc ep by (rule provider_ofI)
    from assms(2) cc ep have m:
      "incoming_servers ep = [] \<or> outgoing_servers ep = []
       \<or> (\<exists>s \<in> set (incoming_servers ep @ outgoing_servers ep). lacks_child s)"
      by (simp add: missing_element_def)
    show ?thesis
    proof (cases "incoming_servers ep = [] \<or> outgoing_servers ep = []")
      case True
      then show ?thesis using parse_config_no_server[OF assms(1) p] by simp
    next
      case False
      with m obtain s where s: "s \<in> set (incoming_servers ep @ outgoing_servers ep)" "lacks_child s"
        by blast
      obtain vi where vi: "getattr_element ep (py ''incomingServer'') = Inr vi" "iter_node vi = incoming_servers ep"
        using getattr_element_some[of ep "py ''incomingServer''"] False by (auto simp: incoming_servers_def)
      obtain vo where vo: "getattr_element ep (py ''outgoingServer'') = Inr vo" "iter_node vo = outgoing_servers ep"
        using getattr_element_some[of ep "py ''outgoingServer''"] False by (auto simp: outgoing_servers_def)
      have eq: "parse_config L t =
                 and_then (append_servers L (incoming_servers ep) []) (\<lambda>servers1.
                 and_then (append_servers L (outgoing_servers ep) servers1) (\<lambda>servers2.
                 Inr (getitem_element ep (py ''id''), servers2)))"
        by (simp add: parse_config_provider[OF assms(1) p] vi vo)
      show ?thesis
      proof (cases "parse_config L t")
        case (Inl err)
        from Inl[unfolded eq] have "\<exists>s' \<in> set (incoming_servers ep @ outgoing_servers ep). server_of L s' = Inl err"
          by (auto dest!: and_then_Inl append_servers_Inl)
        then have "err = AttributeError \<or> err = ValueError" using server_of_Inl by blast
        with Inl show ?thesis by simp
      next
        case (Inr res)
        obtain pid ss where "res = (pid, ss)" by (cases res)
        with Inr parse_config_complete[of L t pid ss] assms(1) p
        have "map (server_of L) (incoming_servers ep @ outgoing_servers ep) = map Inr ss" by auto
        from map_Inr_server_of[OF this s(1)] server_of_lacks[OF s(2), of L] show ?thesis by auto
      qed
    qed
  qed
qed

lemma parse_config_not_missing:
  assumes "parse_config L t = Inr (pid, ss)" "untangle_parse L t = Inr doc"
  shows "\<not> missing_element doc"
  using parse_config_missing[OF assms(2)] assms(1) by auto

lemma parse_config_never_not_found: "parse_config L t \<noteq> Inl NoConfigurationFound"
  using parse_config_Inl[of L t NoConfigurationFound] by auto

subsection \<open>Resolving the example documents\<close>

lemma example_fetched:
  "fst (ClientConfig_init (example_library e) (example_world code body) (py ''example.com'')) =
     (if \<not> ok \<lparr>status_code = code, response_text = body\<rparr> \<or> body = []
      then Inl NoConfigurationFound
      else (case parse_config (example_library e) body of
              Inl err \<Rightarrow> Inl err
            | Inr (pid, ss) \<Rightarrow>
                Inr \<lparr>domain = py ''example.com'', xml = body, emailProvider = pid, configs = ss\<rparr>))"
  using init_fetched[OF fix_url_example example_remote, of "example_library e" code body]
  by (cases "parse_config (example_library e) body") auto

lemma example_resolved:
  "parse_config (example_library e) (render e) = Inr (pid, ss) \<Longrightarrow>
     fst (ClientConfig_init (example_library e) (example_world 200 (render e)) (py ''example.com''))
       = Inr \<lparr>domain = py ''example.com'', xml = render e, emailProvider = pid, configs = ss\<rparr>"
  by (simp add: example_fetched ok_def render_nonempty)

lemma example_failed:
  "parse_config (example_library e) (render e) = Inl err \<Longrightarrow>
     fst (ClientConfig_init (example_library e) (example_world 200 (render e)) (py ''example.com'')) = Inl err"
  by (simp add: example_fetched ok_def render_nonempty)

lemma provider_servers:
  "incoming_servers (provider_element servers) = filter (\<lambda>x. name x = py ''incomingServer'') servers"
  "outgoing_servers (provider_element servers) = filter (\<lambda>x. name x = py ''outgoingServer'') servers"
  by (simp_all add: incoming_servers_def outgoing_servers_def get_elements_def provider_element_def)

lemma example_names:
  "name imap_element = py ''incomingServer''" "name upper_imap_element = py ''incomingServer''"
  "name untyped_element = py ''incomingServer''" "name struck_element = py ''incomingServer''" "name smtp_element = py ''outgoingServer''"
  "name portless_element = py ''outgoingServer''"
  by (simp_all add: imap_element_def upper_imap_element_def untyped_element_def smtp_element_def
      portless_element_def struck_element_def server_element_def)

lemma example_parsed:
  assumes "filter (\<lambda>x. name x = py ''incomingServer'') servers \<noteq> []"
    and "filter (\<lambda>x. name x = py ''outgoingServer'') servers \<noteq> []"
    and "map (server_of (example_library (client_config servers)))
           (filter (\<lambda>x. name x = py ''incomingServer'') servers
            @ filter (\<lambda>x. name x = py ''outgoingServer'') servers) = map Inr ss"
  shows "parse_config (example_library (client_config servers)) (render (client_config servers))
           = Inr (Some (py ''example.com''), ss)"
  using parse_config_ok[OF example_untangle example_provider, of servers ss] assms
  by (simp add: provider_servers example_provider_id)

lemma upper_example_resolved:
  "fst (ClientConfig_init (example_library (client_config [upper_imap_element, smtp_element]))
     (example_world 200 (render (client_config [upper_imap_element, smtp_element]))) (py ''example.com''))
   = Inr \<lparr>domain = py ''example.com'', xml = render (client_config [upper_imap_element, smtp_element]),
          emailProvider = Some (py ''example.com''), configs = [upper_imap_config, smtp_config]\<rparr>"
  by (rule example_resolved, rule example_parsed)
     (simp_all add: example_names upper_imap_server_of smtp_server_of)

lemma untyped_example_resolved:
  "fst (ClientConfig_init (example_library (client_config [untyped_element, smtp_element]))
     (example_world 200 (render (client_config [untyped_element, smtp_element]))) (py ''example.com''))
   = Inr \<lparr>domain = py ''example.com'', xml = render (client_config [untyped_element, smtp_element]),
          emailProvider = Some (py ''example.com''), configs = [untyped_config, smtp_config]\<rparr>"
  by (rule example_resolved, rule example_parsed)
     (simp_all add: example_names untyped_server_of smtp_server_of)

lemma struck_example_resolved:
  "fst (ClientConfig_init (example_library (client_config [struck_element, smtp_element]))
     (example_world 200 (render (client_config [struck_element, smtp_element]))) (py ''example.com''))
   = Inr \<lparr>domain = py ''example.com'', xml = render (client_config [struck_element, smtp_element]),
          emailProvider = Some (py ''example.com''), configs = [struck_config, smtp_config]\<rparr>"
  by (rule example_resolved, rule example_parsed)
     (simp_all add: example_names struck_server_of smtp_server_of)

lemma example_no_latin1_upper: "no_latin1_upper_above (example_library e)"
  by (auto simp: no_latin1_upper_above_def example_library_def isupper_latin1_def)

lemma incoming_only_fails:
  "fst (ClientConfig_init (example_library (client_config [imap_element]))
     (example_world 200 (render (client_config [imap_element]))) (py ''example.com'')) = Inl AttributeError"
proof (rule example_failed)
  show "parse_config (example_library (client_config [imap_element])) (render (client_config [imap_element]))
          = Inl AttributeError"
    using parse_config_no_server[OF example_untangle example_provider, of "[imap_element]"]
    by (simp add: provider_servers example_names)
qed

lemma example_lowers:
  "lower L (py ''imap'') = py ''imap''" "lower L (py ''IMAP'') = py ''imap''"
  "lower L (py ''smtp'') = py ''smtp''" "lower L (py ''SMTP'') = py ''smtp''"
  by (simp_all add: py_def lower_def lower_latin1_def isupper_latin1_def)

lemma example_protocols:
  "protocol imap_config = Some (py ''imap'')" "protocol smtp_config = Some (py ''smtp'')"
  "protocol upper_imap_config = Some (py ''IMAP'')" "protocol untyped_config = None"
  by (simp_all add: imap_config_def smtp_config_def upper_imap_config_def untyped_config_def)

lemma get_config_fst:
  "fst (ClientConfig_init L w d) = Inr c \<Longrightarrow> fst (get_config L w d p) = Inr (scan_configs L (configs c) p)"
  by (cases "ClientConfig_init L w d") (simp add: get_config_def get_config'_def)

subsection \<open>Construction from a fetched document\<close>

lemma init_parsed:
  assumes "fix_url L d = Inr nd" "remote w (DATABASE_URL @ py ''/'' @ nd) = Inr r"
    and "ok r" "response_text r \<noteq> []"
  shows "fst (ClientConfig_init L w d) =
           (case parse_config L (response_text r) of
              Inl e \<Rightarrow> Inl e
            | Inr (pid, ss) \<Rightarrow>
                Inr \<lparr>domain = nd, xml = response_text r, emailProvider = pid, configs = ss\<rparr>)"
  using init_fetched[OF assms(1,2)] assms(3,4) by simp

lemma init_parsed_Inr:
  assumes "fix_url L d = Inr nd" "remote w (DATABASE_URL @ py ''/'' @ nd) = Inr r"
    and "ok r" "response_text r \<noteq> []" "parse_config L (response_text r) = Inr (pid, ss)"
  shows "fst (ClientConfig_init L w d)
           = Inr \<lparr>domain = nd, xml = response_text r, emailProvider = pid, configs = ss\<rparr>"
  using init_parsed[OF assms(1-4)] assms(5) by simp

lemma init_parsed_Inl:
  assumes "fix_url L d = Inr nd" "remote w (DATABASE_URL @ py ''/'' @ nd) = Inr r"
    and "ok r" "response_text r \<noteq> []" "parse_config L (response_text r) = Inl e"
  shows "fst (ClientConfig_init L w d) = Inl e"
  using init_parsed[OF assms(1-4)] assms(5) by simp

lemma init_parsed_success:
  assumes "fix_url L d = Inr nd" "remote w (DATABASE_URL @ py ''/'' @ nd) = Inr r"
    and "ok r" "response_text r \<noteq> []" "fst (ClientConfig_init L w d) = Inr c"
  shows "parse_config L (response_text r) = Inr (emailProvider c, configs c)"
proof (cases "parse_config L (response_text r)")
  case (Inl e)
  with init_parsed_Inl[OF assms(1-4) Inl] assms(5) show ?thesis by simp
next
  case (Inr res)
  obtain pid ss where res: "res = (pid, ss)" by (cases res)
  from init_parsed_Inr[OF assms(1-4) Inr[unfolded res]] assms(5) have "pid = emailProvider c" "ss = configs c"
    by auto
  with Inr res show ?thesis by simp
qed

lemma example_wf: "server_wf (example_library e) imap_element" "server_wf (example_library e) smtp_element"
  by (simp_all add: server_wf_def required_children_def get_elements_def imap_element_def
      smtp_element_def server_element_def leaf_def example_library_def)

lemma example_response:
  "ok \<lparr>status_code = 200, response_text = t\<rparr>"
  "response_text \<lparr>status_code = 200, response_text = render e\<rparr> \<noteq> []"
  "untangle_parse (example_library e) (response_text \<lparr>status_code = 200, response_text = render e\<rparr>)
     = Inr (parsed e)"
  by (simp_all add: ok_def render_nonempty example_untangle)

subsection \<open>Further example facts\<close>

lemma not_found_response:
  "\<not> ok \<lparr>status_code = 404, response_text = t\<rparr>"
  by (simp add: ok_def)

lemma portless_missing: "missing_element (parsed (client_config [imap_element, portless_element]))"
  by (simp add: missing_element_def parsed_def client_config_def provider_element_def get_elements_def
      incoming_servers_def outgoing_servers_def lacks_child_def required_children_def
      example_names portless_element_def leaf_def)

lemma unclosed_rejected:
  "untangle_parse (example_library (client_config [imap_element, smtp_element])) (py ''<clientConfig>'')
     = Inl ''SAXParseException''"
  by (rule example_rejects) (simp add: py_def client_config_def)

lemma portless_response:
  "untangle_parse (example_library (client_config [imap_element, smtp_element]))
     (response_text \<lparr>status_code = 200, response_text = py ''<clientConfig>''\<rparr>)
     = Inl ''SAXParseException''"
  "response_text \<lparr>status_code = 200, response_text = py ''<clientConfig>''\<rparr> \<noteq> []"
  by (simp_all add: unclosed_rejected)

section \<open>The claims\<close>

text \<open>
  C1, as amended: for a domain that resolves, \<^verbatim>\<open>get_config\<close> scans the config list in
  document order and returns the first entry whose protocol field is equal to the lowered
  query, or \<open>None\<close> when there is none. Where every stored protocol field is in lower case
  already, that entry is the first one that matches the query up to case.
\<close>

theorem get_config_first_exact_match:
  assumes "ClientConfig_init L w d = (Inr c, w')"
  shows "get_config L w d p = (Inr (find (\<lambda>x. protocol x = Some (lower L p)) (configs c)), w')
         \<and> ((\<forall>x \<in> set (configs c). \<forall>q. protocol x = Some q \<longrightarrow> lower L q = q)
              \<longrightarrow> get_config L w d p = (Inr (find (ci_match L p) (configs c)), w'))"
  using get_config_resolved[OF assms, of p] find_ci_match[of "configs c" L p] by simp

theorem get_config_first_exact_match_witness:
  "fst (get_config (example_library (client_config [imap_element, smtp_element]))
     (example_world 200 (render (client_config [imap_element, smtp_element]))) (py ''example.com'') (py ''SMTP''))
   = Inr (find (ci_match (example_library (client_config [imap_element, smtp_element])) (py ''SMTP'')) [imap_config, smtp_config])
   \<and> fst (get_config (example_library (client_config [imap_element, smtp_element]))
     (example_world 200 (render (client_config [imap_element, smtp_element]))) (py ''example.com'') (py ''SMTP''))
   = Inr (Some smtp_config)"
proof -
  let ?L = "example_library (client_config [imap_element, smtp_element])"
  let ?w = "example_world 200 (render (client_config [imap_element, smtp_element]))"
  let ?c = "\<lparr>domain = py ''example.com'', xml = render (client_config [imap_element, smtp_element]),
           emailProvider = Some (py ''example.com''), configs = [imap_config, smtp_config]\<rparr>"
  let ?w' = "?w\<lparr>requested := [py ''https://autoconfig.thunderbird.net/v1.1/example.com'']\<rparr>"
  have low: "\<forall>x \<in> set (configs ?c). \<forall>q. protocol x = Some q \<longrightarrow> lower ?L q = q"
    by (auto simp: example_protocols example_lowers)
  note t = get_config_first_exact_match[OF example_init, of "py ''SMTP''"]
  from t have b: "get_config ?L ?w (py ''example.com'') (py ''SMTP'')
                    = (Inr (find (\<lambda>x. protocol x = Some (lower ?L (py ''SMTP''))) (configs ?c)), ?w')"
    by (rule conjunct1)
  from t low have a: "get_config ?L ?w (py ''example.com'') (py ''SMTP'')
                    = (Inr (find (ci_match ?L (py ''SMTP'')) (configs ?c)), ?w')"
    by (rule conjunct2[THEN mp])
  have f: "find (\<lambda>x. protocol x = Some (lower ?L (py ''SMTP''))) (configs ?c) = Some smtp_config"
    by (simp add: example_protocols example_lowers)
  have a': "fst (get_config ?L ?w (py ''example.com'') (py ''SMTP''))
              = Inr (find (ci_match ?L (py ''SMTP'')) [imap_config, smtp_config])"
    unfolding a by simp
  have b': "fst (get_config ?L ?w (py ''example.com'') (py ''SMTP'')) = Inr (Some smtp_config)"
    unfolding b f by simp
  from a' b' show ?thesis by (rule conjI)
qed

theorem get_config_case_insensitive_counterexample:
  "fst (ClientConfig_init (example_library (client_config [upper_imap_element, smtp_element]))
     (example_world 200 (render (client_config [upper_imap_element, smtp_element]))) (py ''example.com''))
   = Inr \<lparr>domain = py ''example.com'', xml = render (client_config [upper_imap_element, smtp_element]),
          emailProvider = Some (py ''example.com''), configs = [upper_imap_config, smtp_config]\<rparr>
   \<and> find (ci_match (example_library (client_config [upper_imap_element, smtp_element])) (py ''imap'')) [upper_imap_config, smtp_config] = Some upper_imap_config
   \<and> fst (get_config (example_library (client_config [upper_imap_element, smtp_element]))
     (example_world 200 (render (client_config [upper_imap_element, smtp_element]))) (py ''example.com'') (py ''imap''))
   = Inr None
   \<and> fst (get_config (example_library (client_config [upper_imap_element, smtp_element]))
     (example_world 200 (render (client_config [upper_imap_element, smtp_element]))) (py ''example.com'') (py ''IMAP''))
   = Inr None"
  by (simp add: upper_example_resolved get_config_fst[OF upper_example_resolved]
      ci_match_def example_protocols example_lowers)

text \<open>
  C2, as amended: for a well-formed document with at least one incoming and at least one
  outgoing server element, the \<^verbatim>\<open>configs\<close> of the resolved \<^verbatim>\<open>ClientConfig\<close> has one
  entry for each server element, the incoming servers in document order followed by the
  outgoing servers in document order. Where the document has no incoming or no outgoing
  server element the construction raises AttributeError, so the list of a resolved
  \<^verbatim>\<open>ClientConfig\<close> is never empty.
\<close>

theorem resolve_configs_in_document_order:
  assumes "fix_url L d = Inr nd" "remote w (DATABASE_URL @ py ''/'' @ nd) = Inr r"
    and "ok r" "response_text r \<noteq> []"
    and "untangle_parse L (response_text r) = Inr doc" "provider_of doc = Some ep"
    and "\<forall>s \<in> set (incoming_servers ep @ outgoing_servers ep). server_wf L s"
  shows "(incoming_servers ep \<noteq> [] \<and> outgoing_servers ep \<noteq> [] \<longrightarrow>
            (\<exists>c. fst (ClientConfig_init L w d) = Inr c
                \<and> length (configs c) = length (incoming_servers ep) + length (outgoing_servers ep)
                \<and> map Inr (configs c) = map (server_of L) (incoming_servers ep @ outgoing_servers ep)))
         \<and> (incoming_servers ep = [] \<or> outgoing_servers ep = [] \<longrightarrow>
              fst (ClientConfig_init L w d) = Inl AttributeError)
         \<and> (\<forall>c. fst (ClientConfig_init L w d) = Inr c \<longrightarrow> configs c \<noteq> [])"
proof (intro conjI impI allI)
  assume ne: "incoming_servers ep \<noteq> [] \<and> outgoing_servers ep \<noteq> []"
  from all_wf_servers[OF assms(7)] obtain ss where
    ss: "map (server_of L) (incoming_servers ep @ outgoing_servers ep) = map Inr ss" by blast
  have "parse_config L (response_text r) = Inr (getitem_element ep (py ''id''), ss)"
    using parse_config_ok[OF assms(5,6) _ _ ss] ne by simp
  from init_parsed_Inr[OF assms(1-4) this]
  have i: "fst (ClientConfig_init L w d)
             = Inr \<lparr>domain = nd, xml = response_text r,
                    emailProvider = getitem_element ep (py ''id''), configs = ss\<rparr>" .
  have "length ss = length (incoming_servers ep) + length (outgoing_servers ep)"
    using arg_cong[OF ss, of length] by simp
  with i ss show "\<exists>c. fst (ClientConfig_init L w d) = Inr c
                \<and> length (configs c) = length (incoming_servers ep) + length (outgoing_servers ep)
                \<and> map Inr (configs c) = map (server_of L) (incoming_servers ep @ outgoing_servers ep)"
    by simp
next
  assume "incoming_servers ep = [] \<or> outgoing_servers ep = []"
  from init_parsed_Inl[OF assms(1-4) parse_config_no_server[OF assms(5,6) this]]
  show "fst (ClientConfig_init L w d) = Inl AttributeError" .
next
  fix c
  assume "fst (ClientConfig_init L w d) = Inr c"
  from parse_config_complete[OF init_parsed_success[OF assms(1-4) this]]
  obtain doc' ep' where "incoming_servers ep' \<noteq> []"
    "map (server_of L) (incoming_servers ep' @ outgoing_servers ep') = map Inr (configs c)"
    by blast
  then show "configs c \<noteq> []" by auto
qed

theorem resolve_configs_in_document_order_witness:
  "(\<exists>c. fst (ClientConfig_init (example_library (client_config [imap_element, smtp_element]))
           (example_world 200 (render (client_config [imap_element, smtp_element]))) (py ''example.com'')) = Inr c
        \<and> length (configs c) = 2 \<and> configs c = [imap_config, smtp_config])
   \<and> incoming_servers (provider_element [imap_element]) = [imap_element]
   \<and> outgoing_servers (provider_element [imap_element]) = []
   \<and> fst (ClientConfig_init (example_library (client_config [imap_element]))
           (example_world 200 (render (client_config [imap_element]))) (py ''example.com''))
       = Inl AttributeError"
proof -
  let ?e = "client_config [imap_element, smtp_element]" and ?e1 = "client_config [imap_element]"
  let ?ep = "provider_element [imap_element, smtp_element]"
  have wf: "\<forall>s \<in> set (incoming_servers ?ep @ outgoing_servers ?ep). server_wf (example_library ?e) s"
    by (simp add: provider_servers example_names example_wf)
  have wf1: "\<forall>s \<in> set (incoming_servers (provider_element [imap_element])
                   @ outgoing_servers (provider_element [imap_element])).
              server_wf (example_library ?e1) s"
    by (simp add: provider_servers example_names example_wf)
  have s1: "incoming_servers (provider_element [imap_element]) = [imap_element]"
           "outgoing_servers (provider_element [imap_element]) = []"
    by (simp_all add: provider_servers example_names)
  have ne: "incoming_servers ?ep \<noteq> [] \<and> outgoing_servers ?ep \<noteq> []"
    by (simp add: example_servers)
  note t = resolve_configs_in_document_order[OF fix_url_example example_remote
      example_response(1) example_response(2) example_response(3) example_provider wf]
  from t ne obtain c where
    c: "fst (ClientConfig_init (example_library ?e) (example_world 200 (render ?e)) (py ''example.com'')) = Inr c"
       "map Inr (configs c) = map (server_of (example_library ?e))
            (incoming_servers ?ep @ outgoing_servers ?ep)"
    by blast
  from c(2) have cc: "configs c = [imap_config, smtp_config]"
    by (auto simp: example_servers imap_server_of smtp_server_of map_eq_Cons_conv)
  note t1 = resolve_configs_in_document_order[OF fix_url_example example_remote
      example_response(1) example_response(2) example_response(3) example_provider wf1]
  from t1 s1
  have f: "fst (ClientConfig_init (example_library ?e1) (example_world 200 (render ?e1)) (py ''example.com''))
           = Inl AttributeError" by blast
  from c(1) cc have "\<exists>c. fst (ClientConfig_init (example_library ?e) (example_world 200 (render ?e))
      (py ''example.com'')) = Inr c \<and> length (configs c) = 2 \<and> configs c = [imap_config, smtp_config]"
    by simp
  with f s1 show ?thesis by blast
qed

theorem empty_outgoing_counterexample:
  "provider_of (parsed (client_config [imap_element])) = Some (provider_element [imap_element])
   \<and> length (incoming_servers (provider_element [imap_element])) = 1
   \<and> length (outgoing_servers (provider_element [imap_element])) = 0
   \<and> server_wf (example_library (client_config [imap_element])) imap_element
   \<and> fst (ClientConfig_init (example_library (client_config [imap_element]))
           (example_world 200 (render (client_config [imap_element]))) (py ''example.com''))
       = Inl AttributeError"
  by (simp add: example_provider provider_servers example_names example_wf incoming_only_fails)

text \<open>
  C3, as amended: the construction raises the not-found exception exactly when the request
  yields no document text: the endpoint answers with a non-success status, or with a
  success status and an empty body. \<^verbatim>\<open>request_config\<close> returns \<open>None\<close> on a non-success
  status instead of raising and the response text on a success status, and with a
  non-empty text the construction goes on to parse it.
\<close>

theorem not_found_iff_no_document:
  assumes "fix_url L d = Inr nd" "remote w (DATABASE_URL @ py ''/'' @ nd) = Inr r"
  shows "(fst (ClientConfig_init L w d) = Inl NoConfigurationFound)
           = (\<not> ok r \<or> response_text r = [])
         \<and> fst (request_config w nd) = Inr (if ok r then Some (response_text r) else None)
         \<and> (ok r \<and> response_text r \<noteq> [] \<longrightarrow>
              fst (ClientConfig_init L w d) =
                (case parse_config L (response_text r) of
                   Inl e \<Rightarrow> Inl e
                 | Inr (pid, ss) \<Rightarrow>
                     Inr \<lparr>domain = nd, xml = response_text r, emailProvider = pid, configs = ss\<rparr>))"
proof (intro conjI impI)
  show "(fst (ClientConfig_init L w d) = Inl NoConfigurationFound) = (\<not> ok r \<or> response_text r = [])"
  proof (cases "\<not> ok r \<or> response_text r = []")
    case True
    then show ?thesis using init_fetched[OF assms] by auto
  next
    case False
    then have o: "ok r" "response_text r \<noteq> []" by auto
    have "fst (ClientConfig_init L w d) \<noteq> Inl NoConfigurationFound"
      using init_parsed[OF assms o] parse_config_never_not_found[of L "response_text r"]
      by (cases "parse_config L (response_text r)") auto
    with False show ?thesis by simp
  qed
next
  show "fst (request_config w nd) = Inr (if ok r then Some (response_text r) else None)"
    unfolding request_config_eq assms(2) by simp
next
  assume "ok r \<and> response_text r \<noteq> []"
  then have o: "ok r" "response_text r \<noteq> []" by auto
  show "fst (ClientConfig_init L w d) =
                (case parse_config L (response_text r) of
                   Inl e \<Rightarrow> Inl e
                 | Inr (pid, ss) \<Rightarrow>
                     Inr \<lparr>domain = nd, xml = response_text r, emailProvider = pid, configs = ss\<rparr>)"
    by (rule init_parsed[OF assms o])
qed

theorem not_found_iff_no_document_witness:
  "fix_url (example_library (client_config [imap_element, smtp_element])) (py ''example.com'')
     = Inr (py ''example.com'')
   \<and> remote (example_world 404 (py ''Not Found'')) (py ''https://autoconfig.thunderbird.net/v1.1/example.com'')
     = Inr \<lparr>status_code = 404, response_text = py ''Not Found''\<rparr>
   \<and> fst (request_config (example_world 404 (py ''Not Found'')) (py ''example.com'')) = Inr None
   \<and> fst (ClientConfig_init (example_library (client_config [imap_element, smtp_element]))
          (example_world 404 (py ''Not Found'')) (py ''example.com'')) = Inl NoConfigurationFound
   \<and> fst (ClientConfig_init (example_library (client_config [imap_element, smtp_element]))
          (example_world 200 (render (client_config [imap_element, smtp_element]))) (py ''example.com''))
       = Inr \<lparr>domain = py ''example.com'', xml = render (client_config [imap_element, smtp_element]),
              emailProvider = Some (py ''example.com''), configs = [imap_config, smtp_config]\<rparr>"
proof -
  let ?e = "client_config [imap_element, smtp_element]"
  let ?L = "example_library ?e"
  note t = not_found_iff_no_document[OF fix_url_example example_remote, of ?L 404 "py ''Not Found''"]
  from t not_found_response[of "py ''Not Found''"]
  have a: "fst (ClientConfig_init ?L (example_world 404 (py ''Not Found'')) (py ''example.com''))
             = Inl NoConfigurationFound" by blast
  from t not_found_response[of "py ''Not Found''"]
  have b: "fst (request_config (example_world 404 (py ''Not Found'')) (py ''example.com'')) = Inr None"
    by simp
  note u = not_found_iff_no_document[OF fix_url_example example_remote, of ?L 200 "render ?e"]
  from u example_response(1)[of "render ?e"] example_response(2)[of ?e]
  have "fst (ClientConfig_init ?L (example_world 200 (render ?e)) (py ''example.com'')) =
          (case parse_config ?L (response_text \<lparr>status_code = 200, response_text = render ?e\<rparr>) of
             Inl e \<Rightarrow> Inl e
           | Inr (pid, ss) \<Rightarrow>
               Inr \<lparr>domain = py ''example.com'',
                    xml = response_text \<lparr>status_code = 200, response_text = render ?e\<rparr>,
                    emailProvider = pid, configs = ss\<rparr>)"
    by blast
  then have c: "fst (ClientConfig_init ?L (example_world 200 (render ?e)) (py ''example.com''))
       = Inr \<lparr>domain = py ''example.com'', xml = render ?e,
              emailProvider = Some (py ''example.com''), configs = [imap_config, smtp_config]\<rparr>"
    by (simp add: example_parse)
  have r: "remote (example_world 404 (py ''Not Found'')) (py ''https://autoconfig.thunderbird.net/v1.1/example.com'')
     = Inr \<lparr>status_code = 404, response_text = py ''Not Found''\<rparr>"
    using example_remote[of 404 "py ''Not Found''"] by (simp only: example_url)
  from a b c r fix_url_example[of ?L] show ?thesis by blast
qed

theorem empty_body_counterexample:
  "remote (example_world 200 []) (py ''https://autoconfig.thunderbird.net/v1.1/example.com'')
     = Inr \<lparr>status_code = 200, response_text = []\<rparr>
   \<and> ok \<lparr>status_code = 200, response_text = []\<rparr>
   \<and> fst (request_config (example_world 200 []) (py ''example.com'')) = Inr (Some [])
   \<and> fst (ClientConfig_init (example_library (client_config [imap_element, smtp_element]))
          (example_world 200 []) (py ''example.com'')) = Inl NoConfigurationFound"
proof -
  have r: "remote (example_world 200 []) (py ''https://autoconfig.thunderbird.net/v1.1/example.com'')
     = Inr \<lparr>status_code = 200, response_text = []\<rparr>"
    using example_remote[of 200 "[]"] by (simp only: example_url)
  have q: "fst (request_config (example_world 200 []) (py ''example.com'')) = Inr (Some [])"
    unfolding request_config_eq example_remote by (simp add: ok_def)
  show ?thesis
    using r q by (simp add: example_fetched ok_def)
qed

text \<open>
  C4, as amended: for a fetched document that the XML parser rejects, the construction
  fails with the exception of the parser; for a parsed document that misses an expected
  element (for example a server element without a port child) it fails with the
  AttributeError of the XML layer, or with the ValueError of a port that is not an integer
  where one is read before the missing element. There is no partial result: a
  \<^verbatim>\<open>ClientConfig\<close> that is returned comes from a document that misses no element, and
  its \<^verbatim>\<open>configs\<close> has the entry of every server element.
\<close>

theorem malformed_document_fails:
  assumes "fix_url L d = Inr nd" "remote w (DATABASE_URL @ py ''/'' @ nd) = Inr r"
    and "ok r" "response_text r \<noteq> []"
  shows "(\<forall>x. untangle_parse L (response_text r) = Inl x \<longrightarrow>
            fst (ClientConfig_init L w d) = Inl (UntangleError x))
         \<and> (\<forall>doc. untangle_parse L (response_text r) = Inr doc \<and> missing_element doc \<longrightarrow>
              fst (ClientConfig_init L w d) = Inl AttributeError
              \<or> fst (ClientConfig_init L w d) = Inl ValueError)
         \<and> (\<forall>c. fst (ClientConfig_init L w d) = Inr c \<longrightarrow>
              (\<exists>doc ep. untangle_parse L (response_text r) = Inr doc \<and> provider_of doc = Some ep
                 \<and> \<not> missing_element doc
                 \<and> map Inr (configs c) = map (server_of L) (incoming_servers ep @ outgoing_servers ep)))"
proof (intro conjI allI impI)
  fix x
  assume "untangle_parse L (response_text r) = Inl x"
  then have "parse_config L (response_text r) = Inl (UntangleError x)"
    by (simp add: parse_config_def)
  from init_parsed_Inl[OF assms this] show "fst (ClientConfig_init L w d) = Inl (UntangleError x)" .
next
  fix doc
  assume "untangle_parse L (response_text r) = Inr doc \<and> missing_element doc"
  then obtain err where "parse_config L (response_text r) = Inl err" "err = AttributeError \<or> err = ValueError"
    using parse_config_missing[of L "response_text r" doc] by blast
  with init_parsed_Inl[OF assms this(1)]
  show "fst (ClientConfig_init L w d) = Inl AttributeError \<or> fst (ClientConfig_init L w d) = Inl ValueError"
    by auto
next
  fix c
  assume "fst (ClientConfig_init L w d) = Inr c"
  from init_parsed_success[OF assms this]
  have p: "parse_config L (response_text r) = Inr (emailProvider c, configs c)" .
  from parse_config_complete[OF p] obtain doc ep where
    d: "untangle_parse L (response_text r) = Inr doc" "provider_of doc = Some ep"
       "map (server_of L) (incoming_servers ep @ outgoing_servers ep) = map Inr (configs c)"
    by blast
  from parse_config_not_missing[OF p d(1)] d
  show "\<exists>doc ep. untangle_parse L (response_text r) = Inr doc \<and> provider_of doc = Some ep
                 \<and> \<not> missing_element doc
                 \<and> map Inr (configs c) = map (server_of L) (incoming_servers ep @ outgoing_servers ep)"
    by metis
qed

theorem malformed_document_fails_witness:
  "fst (ClientConfig_init (example_library (client_config [imap_element, smtp_element]))
          (example_world 200 (py ''<clientConfig>'')) (py ''example.com''))
     = Inl (UntangleError ''SAXParseException'')
   \<and> missing_element (parsed (client_config [imap_element, portless_element]))
   \<and> (fst (ClientConfig_init (example_library (client_config [imap_element, portless_element]))
          (example_world 200 (render (client_config [imap_element, portless_element]))) (py ''example.com''))
        = Inl AttributeError
      \<or> fst (ClientConfig_init (example_library (client_config [imap_element, portless_element]))
          (example_world 200 (render (client_config [imap_element, portless_element]))) (py ''example.com''))
        = Inl ValueError)
   \<and> \<not> missing_element (parsed (client_config [imap_element, smtp_element]))"
proof -
  let ?e = "client_config [imap_element, smtp_element]"
  let ?p = "client_config [imap_element, portless_element]"
  note a = malformed_document_fails[OF fix_url_example example_remote example_response(1)
      portless_response(2), of "example_library ?e", THEN conjunct1, rule_format]
  have 1: "fst (ClientConfig_init (example_library ?e) (example_world 200 (py ''<clientConfig>'')) (py ''example.com''))
     = Inl (UntangleError ''SAXParseException'')"
    by (rule a[OF portless_response(1)])
  note b = malformed_document_fails[OF fix_url_example example_remote example_response(1)
      example_response(2), of "example_library ?p" ?p, THEN conjunct2, THEN conjunct1, rule_format]
  have 2: "fst (ClientConfig_init (example_library ?p) (example_world 200 (render ?p)) (py ''example.com''))
        = Inl AttributeError
      \<or> fst (ClientConfig_init (example_library ?p) (example_world 200 (render ?p)) (py ''example.com''))
        = Inl ValueError"
    by (rule b[OF conjI[OF example_response(3) portless_missing]])
  note c = malformed_document_fails[OF fix_url_example example_remote example_response(1)
      example_response(2), of "example_library ?e" ?e, THEN conjunct2, THEN conjunct2, rule_format]
  from c[OF example_resolved[OF example_parse]] obtain doc where
    doc: "untangle_parse (example_library ?e)
            (response_text \<lparr>status_code = 200, response_text = render ?e\<rparr>) = Inr doc"
         "\<not> missing_element doc"
    by blast
  from doc(1) have "doc = parsed ?e" unfolding example_response(3) by simp
  with doc(2) have 3: "\<not> missing_element (parsed ?e)" by simp
  from 1 portless_missing 2 3 show ?thesis by (intro conjI)
qed

theorem missing_attribute_counterexample:
  "getitem_element untyped_element (py ''type'') = None
   \<and> fst (ClientConfig_init (example_library (client_config [untyped_element, smtp_element]))
     (example_world 200 (render (client_config [untyped_element, smtp_element]))) (py ''example.com''))
   = Inr \<lparr>domain = py ''example.com'', xml = render (client_config [untyped_element, smtp_element]),
          emailProvider = Some (py ''example.com''), configs = [untyped_config, smtp_config]\<rparr>
   \<and> protocol untyped_config = None"
proof -
  have "getitem_element untyped_element (py ''type'') = None"
    by (simp add: getitem_element_def untyped_element_def server_element_def)
  then show ?thesis
    using untyped_example_resolved example_protocols(4) by (intro conjI)
qed

text \<open>
  C5: \<^verbatim>\<open>fix_url\<close> is idempotent. Normalising the result of a normalisation returns that
  result again; where the first normalisation raises, so does the composition, with the
  same exception.
\<close>

theorem fix_url_idempotent: "and_then (fix_url L x) (fix_url L) = fix_url L x"
  using fix_url_idem[of L x] by (simp add: and_then_def)

theorem fix_url_idempotent_witness:
  "and_then (fix_url (example_library (client_config [imap_element, smtp_element])) (py ''http://example.com/path''))
     (fix_url (example_library (client_config [imap_element, smtp_element]))) = Inr (py ''example.com'')"
  using fix_url_idempotent[of "example_library (client_config [imap_element, smtp_element])" "py ''http://example.com/path''"]
  by (simp add: fix_url_example_path)

text \<open>
  C6: \<^verbatim>\<open>fix_url\<close> maps both \<^verbatim>\<open>example.com\<close> and \<^verbatim>\<open>http://example.com/path\<close> to
  \<^verbatim>\<open>example.com\<close>. An input without one of the two scheme prefixes is split as a URL
  after \<^verbatim>\<open>http://\<close> is put in front of it, an input with one is split as it is, and a
  result is the network location alone: the characters after the scheme up to the first
  of \<^verbatim>\<open>/ ? #\<close>, so without scheme, path, query and fragment.
\<close>

theorem fix_url_netloc_only:
  "fix_url L (py ''example.com'') = Inr (py ''example.com'')
   \<and> fix_url L (py ''http://example.com/path'') = Inr (py ''example.com'')
   \<and> (\<not> (startswith d (py ''http://'') \<or> startswith d (py ''https://''))
        \<longrightarrow> fix_url L d = urlsplit_netloc L (py ''http://'' @ d))
   \<and> (startswith d (py ''http://'') \<or> startswith d (py ''https://'')
        \<longrightarrow> fix_url L d = urlsplit_netloc L d)
   \<and> (fix_url L d = Inr n \<longrightarrow> n = netloc_part (after_scheme d))"
proof -
  have "fix_url L d = Inr n \<longrightarrow> n = netloc_part (after_scheme d)"
    using validate_netloc_Inr[of L "netloc_part (after_scheme d)" n] by (simp add: fix_url_eq)
  moreover have "\<not> (startswith d (py ''http://'') \<or> startswith d (py ''https://''))
        \<longrightarrow> fix_url L d = urlsplit_netloc L (py ''http://'' @ d)"
    by (simp add: fix_url_def)
  moreover have "startswith d (py ''http://'') \<or> startswith d (py ''https://'')
        \<longrightarrow> fix_url L d = urlsplit_netloc L d"
    by (auto simp: fix_url_def)
  ultimately show ?thesis
    using fix_url_example[of L] fix_url_example_path[of L] by blast
qed

theorem fix_url_netloc_only_witness:
  "startswith (py ''https://example.com:8080/a/b?q=1#top'') (py ''https://'')
   \<and> \<not> (startswith (py ''example.com/inbox'') (py ''http://'') \<or> startswith (py ''example.com/inbox'') (py ''https://''))
   \<and> fix_url (example_library (client_config [imap_element, smtp_element])) (py ''example.com/inbox'')
       = urlsplit_netloc (example_library (client_config [imap_element, smtp_element])) (py ''http://example.com/inbox'')
   \<and> fix_url (example_library (client_config [imap_element, smtp_element])) (py ''example.com/inbox'') = Inr (py ''example.com'')
   \<and> fix_url (example_library (client_config [imap_element, smtp_element])) (py ''https://example.com:8080/a/b?q=1#top'')
       = Inr (py ''example.com:8080'')
   \<and> fix_url (example_library (client_config [imap_element, smtp_element])) (py ''https://example.com:8080/a/b?q=1#top'')
       = urlsplit_netloc (example_library (client_config [imap_element, smtp_element])) (py ''https://example.com:8080/a/b?q=1#top'')
   \<and> py ''example.com:8080'' = netloc_part (after_scheme (py ''https://example.com:8080/a/b?q=1#top''))"
proof -
  let ?L = "example_library (client_config [imap_element, smtp_element])"
  have a: "startswith (py ''https://example.com:8080/a/b?q=1#top'') (py ''https://'')"
    by (simp add: startswith_def)
  have b: "\<not> (startswith (py ''example.com/inbox'') (py ''http://'') \<or> startswith (py ''example.com/inbox'') (py ''https://''))"
    by (simp add: startswith_def)
  have c: "fix_url ?L (py ''example.com/inbox'') = Inr (py ''example.com'')"
    by (simp add: netloc_eval)
  have d: "fix_url ?L (py ''https://example.com:8080/a/b?q=1#top'') = Inr (py ''example.com:8080'')"
    by (simp add: netloc_eval)
  have e: "fix_url ?L (py ''example.com/inbox'') = urlsplit_netloc ?L (py ''http://'' @ py ''example.com/inbox'')"
    using fix_url_netloc_only[of ?L "py ''example.com/inbox''" "py ''example.com''"] b by blast
  have f: "fix_url ?L (py ''https://example.com:8080/a/b?q=1#top'')
             = urlsplit_netloc ?L (py ''https://example.com:8080/a/b?q=1#top'')"
    using fix_url_netloc_only[of ?L "py ''https://example.com:8080/a/b?q=1#top''" "py ''example.com:8080''"] a
    by blast
  have g: "py ''example.com:8080'' = netloc_part (after_scheme (py ''https://example.com:8080/a/b?q=1#top''))"
    using fix_url_netloc_only[of ?L "py ''https://example.com:8080/a/b?q=1#top''" "py ''example.com:8080''"] d
    by blast
  have h: "py ''http://'' @ py ''example.com/inbox'' = py ''http://example.com/inbox''"
    by (simp add: py_def)
  from a b e[unfolded h] c d f g show ?thesis by (intro conjI)
qed

text \<open>
  C7: \<^verbatim>\<open>request_config\<close> issues one GET, to the URL that joins \<^verbatim>\<open>DATABASE_URL\<close> and
  the domain with a slash, and its result is decided by what the remote end answers for
  that URL. \<^verbatim>\<open>DATABASE_URL\<close> is the fixed root of version 1.1, and a construction
  requests that URL for the normalised domain.
\<close>

theorem request_config_url:
  "snd (request_config w d) = w\<lparr>requested := requested w @ [DATABASE_URL @ py ''/'' @ d]\<rparr>
   \<and> fst (request_config w d) =
       (case remote w (DATABASE_URL @ py ''/'' @ d) of
          Inl x \<Rightarrow> Inl (RequestsError x)
        | Inr r \<Rightarrow> Inr (if ok r then Some (response_text r) else None))
   \<and> DATABASE_URL = py ''https://autoconfig.thunderbird.net/v1.1''
   \<and> (fix_url L dm = Inr d \<longrightarrow>
        requested (snd (ClientConfig_init L w dm)) = requested w @ [DATABASE_URL @ py ''/'' @ d])"
  by (simp add: request_config_eq DATABASE_URL_value init_requested)

theorem request_config_url_witness:
  "fix_url (example_library (client_config [imap_element, smtp_element])) (py ''http://example.com/path'') = Inr (py ''example.com'')
   \<and> requested (snd (ClientConfig_init (example_library (client_config [imap_element, smtp_element])) (example_world 404 (py ''Not Found''))
         (py ''http://example.com/path'')))
       = [py ''https://autoconfig.thunderbird.net/v1.1/example.com'']
   \<and> requested (snd (request_config (example_world 404 (py ''Not Found'')) (py ''example.com'')))
       = [py ''https://autoconfig.thunderbird.net/v1.1/example.com'']"
proof -
  let ?L = "example_library (client_config [imap_element, smtp_element])" and ?w = "example_world 404 (py ''Not Found'')"
  have f: "fix_url ?L (py ''http://example.com/path'') = Inr (py ''example.com'')" by (rule fix_url_example_path)
  have r: "requested ?w = []" by (simp add: example_world_def)
  from request_config_url[of ?w "py ''example.com''" ?L "py ''http://example.com/path''"] f
  have a: "requested (snd (ClientConfig_init ?L ?w (py ''http://example.com/path'')))
             = requested ?w @ [DATABASE_URL @ py ''/'' @ py ''example.com'']"
    and b: "snd (request_config ?w (py ''example.com''))
             = ?w\<lparr>requested := requested ?w @ [DATABASE_URL @ py ''/'' @ py ''example.com'']\<rparr>"
    by blast+
  from a b f show ?thesis unfolding r example_url by simp
qed

text \<open>
  C8: for a domain that resolves, \<^verbatim>\<open>get_configs\<close> returns the \<^verbatim>\<open>configs\<close> list of the
  resolved \<^verbatim>\<open>ClientConfig\<close> as it is: every entry, in the same order.
\<close>

theorem get_configs_full:
  "ClientConfig_init L w d = (Inr c, w') \<Longrightarrow> get_configs L w d = (Inr (configs c), w')"
  by (simp add: get_configs_def get_configs'_def)

theorem get_configs_full_witness:
  "fst (ClientConfig_init (example_library (client_config [imap_element, smtp_element]))
     (example_world 200 (render (client_config [imap_element, smtp_element]))) (py ''example.com''))
   = Inr \<lparr>domain = py ''example.com'', xml = render (client_config [imap_element, smtp_element]),
          emailProvider = Some (py ''example.com''), configs = [imap_config, smtp_config]\<rparr>
   \<and> fst (get_configs (example_library (client_config [imap_element, smtp_element]))
     (example_world 200 (render (client_config [imap_element, smtp_element]))) (py ''example.com''))
   = Inr [imap_config, smtp_config]"
  using get_configs_full[OF example_init] example_init by simp

text \<open>
  C9, as amended: \<^verbatim>\<open>get_config\<close> lowers the query and not the stored field. An entry
  it returns has a protocol field equal, code point for code point, to the lowered query.
  So an entry is returned for a query equal to its own field only if lowering leaves the
  field unchanged; an entry whose field contains an upper-case letter is never returned
  for a query of code points below 256; and an entry whose field contains an upper-case
  letter of the range 0..255 (A..Z, U+00C0..U+00DE) is never returned for any query,
  with a library in which lowering a code point above 255 yields no such letter, as the
  Unicode tables have it. An upper-case letter that lowering leaves unchanged, such as
  U+2102, does not keep an entry from being returned.
\<close>

theorem get_config_lowers_query_only:
  assumes "fst (get_config L w d p) = Inr (Some c)"
  shows "protocol c = Some (lower L p)
         \<and> (protocol c = Some p \<longrightarrow> lower L p = p)
         \<and> ((\<forall>ch \<in> set p. ch < 256) \<longrightarrow>
              (\<forall>q. protocol c = Some q \<longrightarrow> (\<forall>ch \<in> set q. \<not> isupper_char L ch)))
         \<and> (no_latin1_upper_above L \<longrightarrow>
              (\<forall>q. protocol c = Some q \<longrightarrow> (\<forall>ch \<in> set q. \<not> isupper_latin1 ch)))"
proof -
  from get_config_Some[OF assms] obtain self :: ClientConfig
    where "scan_configs L (configs self) p = Some c" by blast
  then have eq: "protocol c = Some (lower L p)" using scan_configs_Some by blast
  have "(\<forall>ch \<in> set p. ch < 256) \<longrightarrow>
          (\<forall>q. protocol c = Some q \<longrightarrow> (\<forall>ch \<in> set q. \<not> isupper_char L ch))"
    using eq lower_no_upper[of p _ L] by auto
  moreover have "no_latin1_upper_above L \<longrightarrow>
          (\<forall>q. protocol c = Some q \<longrightarrow> (\<forall>ch \<in> set q. \<not> isupper_latin1 ch))"
    using eq lower_no_latin1_upper[of L _ p] by auto
  moreover have "protocol c = Some p \<longrightarrow> lower L p = p" using eq by auto
  ultimately show ?thesis using eq by blast
qed

theorem get_config_lowers_query_only_witness:
  "fst (get_config (example_library (client_config [imap_element, smtp_element]))
     (example_world 200 (render (client_config [imap_element, smtp_element]))) (py ''example.com'')
     (py ''IMAP''))
   = Inr (Some imap_config)
   \<and> protocol imap_config = Some (lower (example_library (client_config [imap_element, smtp_element]))
        (py ''IMAP''))
   \<and> list_all (\<lambda>ch. ch < 256) (py ''IMAP'')
   \<and> no_latin1_upper_above (example_library (client_config [imap_element, smtp_element]))
   \<and> list_all (\<lambda>ch. \<not> isupper_char (example_library (client_config [imap_element, smtp_element])) ch)
        (py ''imap'')
   \<and> list_all (\<lambda>ch. \<not> isupper_latin1 ch) (py ''imap'')
   \<and> fst (get_config (example_library (client_config [imap_element, smtp_element]))
     (example_world 200 (render (client_config [imap_element, smtp_element]))) (py ''example.com'')
     (py ''imap''))
   = Inr (Some imap_config)
   \<and> lower (example_library (client_config [imap_element, smtp_element])) (py ''imap'') = py ''imap''"
proof -
  let ?L = "example_library (client_config [imap_element, smtp_element])"
  let ?w = "example_world 200 (render (client_config [imap_element, smtp_element]))"
  have p: "protocol imap_config = Some (py ''imap'')" by (rule example_protocols(1))
  have g: "fst (get_config ?L ?w (py ''example.com'') (py ''IMAP'')) = Inr (Some imap_config)"
    by (simp add: get_config_resolved[OF example_init] example_lowers p)
  have g': "fst (get_config ?L ?w (py ''example.com'') (py ''imap'')) = Inr (Some imap_config)"
    by (simp add: get_config_resolved[OF example_init] example_lowers p)
  have small: "\<forall>ch \<in> set (py ''IMAP''). ch < 256" by (simp add: py_def)
  have h: "no_latin1_upper_above ?L" by (rule example_no_latin1_upper)
  note t = get_config_lowers_query_only[OF g]
  from t have c1: "protocol imap_config = Some (lower ?L (py ''IMAP''))" by (rule conjunct1)
  from t small p have c3: "\<forall>ch \<in> set (py ''imap''). \<not> isupper_char ?L ch" by blast
  from t h p have c4: "\<forall>ch \<in> set (py ''imap''). \<not> isupper_latin1 ch" by blast
  from get_config_lowers_query_only[OF g'] p
  have c2: "lower ?L (py ''imap'') = py ''imap''" by blast
  from small have l0: "list_all (\<lambda>ch. ch < 256) (py ''IMAP'')" by (simp only: list_all_iff)
  from c3 have l3: "list_all (\<lambda>ch. \<not> isupper_char ?L ch) (py ''imap'')" by (simp only: list_all_iff)
  from c4 have l4: "list_all (\<lambda>ch. \<not> isupper_latin1 ch) (py ''imap'')" by (simp only: list_all_iff)
  from g c1 l0 h l3 l4 g' c2 show ?thesis by (intro conjI)
qed

theorem unchanged_upper_case_counterexample:
  "isupper_char (example_library (client_config [struck_element, smtp_element])) 0x2102
   \<and> lower (example_library (client_config [struck_element, smtp_element])) [0x2102] = [0x2102]
   \<and> fst (ClientConfig_init (example_library (client_config [struck_element, smtp_element]))
     (example_world 200 (render (client_config [struck_element, smtp_element]))) (py ''example.com''))
   = Inr \<lparr>domain = py ''example.com'', xml = render (client_config [struck_element, smtp_element]),
          emailProvider = Some (py ''example.com''), configs = [struck_config, smtp_config]\<rparr>
   \<and> protocol struck_config = Some [0x2102]
   \<and> fst (get_config (example_library (client_config [struck_element, smtp_element]))
     (example_world 200 (render (client_config [struck_element, smtp_element]))) (py ''example.com'')
     [0x2102])
   = Inr (Some struck_config)"
proof -
  let ?L = "example_library (client_config [struck_element, smtp_element])"
  have u: "isupper_char ?L 0x2102" by (simp add: isupper_char_def example_library_def)
  have l: "lower ?L [0x2102] = [0x2102]" by (simp add: lower_def example_library_def)
  have p: "protocol struck_config = Some [0x2102]" by (simp add: struck_config_def)
  have g: "fst (get_config ?L (example_world 200 (render (client_config [struck_element, smtp_element])))
             (py ''example.com'') [0x2102]) = Inr (Some struck_config)"
    by (simp add: get_config_fst[OF struck_example_resolved] l p)
  from u l struck_example_resolved p g show ?thesis by (intro conjI)
qed

text \<open>
  C10: a result of \<^verbatim>\<open>fix_url\<close> contains none of the characters \<^verbatim>\<open>/ ? #\<close> and does
  not begin with \<^verbatim>\<open>http://\<close> or \<^verbatim>\<open>https://\<close>; the empty string is mapped to the empty
  string.
\<close>

theorem fix_url_pure_netloc:
  "(fix_url L x = Inr n \<longrightarrow>
      (\<forall>c \<in> set n. c \<notin> set (py ''/?#'')) \<and> \<not> startswith n (py ''http://'') \<and> \<not> startswith n (py ''https://''))
   \<and> fix_url L [] = Inr []"
proof -
  { assume "fix_url L x = Inr n"
    then have n: "n = netloc_part (after_scheme x)"
      using validate_netloc_Inr[of L "netloc_part (after_scheme x)" n] by (simp add: fix_url_eq)
    have nd: "\<forall>c \<in> set n. c \<notin> set (py ''/?#'')" unfolding n using netloc_part_no_delim by blast
    then have "ord CHR ''/'' \<notin> set n" by (auto simp: py_def)
    with nd no_slash_no_scheme[of n]
    have "(\<forall>c \<in> set n. c \<notin> set (py ''/?#'')) \<and> \<not> startswith n (py ''http://'') \<and> \<not> startswith n (py ''https://'')"
      by blast }
  then show ?thesis using fix_url_empty[of L] by blast
qed

theorem fix_url_pure_netloc_witness:
  "fix_url (example_library (client_config [imap_element, smtp_element])) (py ''https://example.com:8080/a/b?q=1#top'') = Inr (py ''example.com:8080'')
   \<and> set (py ''example.com:8080'') \<inter> set (py ''/?#'') = {}
   \<and> \<not> startswith (py ''example.com:8080'') (py ''http://'')
   \<and> \<not> startswith (py ''example.com:8080'') (py ''https://'')"
proof -
  have d: "fix_url (example_library (client_config [imap_element, smtp_element])) (py ''https://example.com:8080/a/b?q=1#top'') = Inr (py ''example.com:8080'')"
    by (simp add: netloc_eval)
  with fix_url_pure_netloc[of "example_library (client_config [imap_element, smtp_element])" "py ''https://example.com:8080/a/b?q=1#top''" "py ''example.com:8080''"]
  have "(\<forall>c \<in> set (py ''example.com:8080''). c \<notin> set (py ''/?#''))
        \<and> \<not> startswith (py ''example.com:8080'') (py ''http://'')
        \<and> \<not> startswith (py ''example.com:8080'') (py ''https://'')" by blast
  with d show ?thesis by blast
qed

end
